theory Spec2Isabelle
  imports Complex_Main "HOL-Library.Word" "HOL-Library.Log_Nat"
begin

unbundle bit_operations_syntax

chapter \<open>The model\<close>

section \<open>Machine types\<close>

text \<open>
  The C sources use \<^verbatim>\<open>uint8_t\<close>, \<^verbatim>\<open>uint32_t\<close>, \<^verbatim>\<open>phys_addr_t\<close> (64 bits on the x86-64
  targets of the kernel module), \<^verbatim>\<open>int\<close> and \<^verbatim>\<open>float\<close>.  Unsigned integers are words.
  The \<^verbatim>\<open>int\<close> arguments of the bit-field extractor are 32-bit words read in two's
  complement (\<open>sint\<close>), so that the arithmetic on them wraps around as it does on the
  targets.  The other \<^verbatim>\<open>int\<close> values that occur (table indices, element counts, codename
  indices) are only compared, added to small constants and used as indices; they are
  mathematical integers.
\<close>

type_synonym u8 = "8 word"
type_synonym u32 = "32 word"
type_synonym u64 = "64 word"
type_synonym s32 = "32 word"

section \<open>util.c: the bit-field extractor\<close>

text \<open>
  \<^verbatim>\<open>
  uint32_t bit_slice(uint32_t val, int hi, int lo)
  {
      int width = hi - lo + 1;
      if (width <= 0 || width > 32) return 0;
      uint32_t mask = (width == 32) ? 0xFFFFFFFFu : ((1u << width) - 1u);
      return (val >> lo) & mask;
  }
  \<close>
  \<^verbatim>\<open>hi\<close>, \<^verbatim>\<open>lo\<close> and \<^verbatim>\<open>width\<close> are 32-bit \<^verbatim>\<open>int\<close>s.  The subtraction and the addition wrap
  around modulo \<open>2^32\<close>, and the comparisons read the result as a signed number.  The
  shift \<^verbatim>\<open>1u << width\<close> is reached with a width from 1 to 31.  The shift \<^verbatim>\<open>val >> lo\<close> uses
  the low five bits of \<^verbatim>\<open>lo\<close> as its count, which is what the shift instructions of x86-64
  and AArch64 do with a 32-bit operand; for \<open>0 \<le> lo \<le> 31\<close> that is \<^verbatim>\<open>lo\<close> itself.  (C
  leaves both the overflow and a shift count outside 0..31 undefined.)
\<close>

definition bit_slice :: "u32 \<Rightarrow> s32 \<Rightarrow> s32 \<Rightarrow> u32" where
  "bit_slice val hi lo =
     (let width = hi - lo + 1 in
      if sint width \<le> 0 \<or> 32 < sint width then 0
      else let mask = (if width = 32 then 0xFFFFFFFF else push_bit (unat width) 1 - 1)
           in drop_bit (unat (lo AND 31)) val AND mask)"

section \<open>Single-precision floating point\<close>

text \<open>
  A C \<^verbatim>\<open>float\<close> is an IEEE 754 binary32 value.  The PM table is a block of raw bytes read
  from the driver and reinterpreted as floats, so a float is modelled as its 32-bit
  pattern: sign (bit 31), biased exponent (bits 30..23), fraction (bits 22..0).  Copying a
  float copies the pattern; \<^verbatim>\<open>memset(.., 0, ..)\<close> produces the pattern 0, which is +0.0.

  Comparisons and arithmetic go through the rational number a pattern denotes.  An
  infinity is given the magnitude \<open>2^128\<close>, the first power of two above every finite
  binary32 value, which the encoding formula yields by itself.  Every comparison with a
  NaN is false.
\<close>

type_synonym float32 = "32 word"

definition f_neg :: "float32 \<Rightarrow> bool" where
  "f_neg x = bit x 31"

definition f_expo :: "float32 \<Rightarrow> int" where
  "f_expo x = uint (drop_bit 23 x AND 0xFF)"

definition f_frac :: "float32 \<Rightarrow> int" where
  "f_frac x = uint (x AND 0x7FFFFF)"

definition is_nan :: "float32 \<Rightarrow> bool" where
  "is_nan x = (f_expo x = 255 \<and> f_frac x \<noteq> 0)"

definition is_inf :: "float32 \<Rightarrow> bool" where
  "is_inf x = (f_expo x = 255 \<and> f_frac x = 0)"

definition is_zero :: "float32 \<Rightarrow> bool" where
  "is_zero x = (f_expo x = 0 \<and> f_frac x = 0)"

definition pow2 :: "int \<Rightarrow> rat" where
  "pow2 k = (if 0 \<le> k then 2 ^ nat k else 1 / 2 ^ nat (- k))"

definition f_mag :: "float32 \<Rightarrow> rat" where
  "f_mag x = (if f_expo x = 0 then of_int (f_frac x) * pow2 (- 149)
              else of_int (2 ^ 23 + f_frac x) * pow2 (f_expo x - 150))"

definition f_val :: "float32 \<Rightarrow> rat" where
  "f_val x = (if f_neg x then - f_mag x else f_mag x)"

text \<open>The C operators \<^verbatim>\<open><\<close>, \<^verbatim>\<open><=\<close>, \<^verbatim>\<open>>\<close>, \<^verbatim>\<open>>=\<close> on floats.\<close>

definition f_lt :: "float32 \<Rightarrow> float32 \<Rightarrow> bool" where
  "f_lt a b = (\<not> is_nan a \<and> \<not> is_nan b \<and> f_val a < f_val b)"

definition f_le :: "float32 \<Rightarrow> float32 \<Rightarrow> bool" where
  "f_le a b = (\<not> is_nan a \<and> \<not> is_nan b \<and> f_val a \<le> f_val b)"

abbreviation f_gt :: "float32 \<Rightarrow> float32 \<Rightarrow> bool" where
  "f_gt a b \<equiv> f_lt b a"

abbreviation f_ge :: "float32 \<Rightarrow> float32 \<Rightarrow> bool" where
  "f_ge a b \<equiv> f_le b a"

text \<open>
  Rounding to nearest, ties to even.  For a positive rational \<open>a\<close> the binade exponent is
  \<open>e = \<lfloor>log\<^sub>2 a\<rfloor>\<close>, not below \<open>-126\<close> (subnormals share the exponent of the smallest
  normal binade); the significand is \<open>a / 2^(e-23)\<close> rounded to an integer \<open>m \<le> 2^24\<close>.  The
  pattern is \<open>(e + 126) * 2^23 + m\<close>: for a normal number \<open>m\<close> carries the hidden bit, which
  adds one to the exponent field; for a subnormal the exponent field stays 0; and
  \<open>m = 2^24\<close> carries into the next binade.  A pattern at or above that of infinity is
  an overflow.
\<close>

definition ilog2 :: "rat \<Rightarrow> int" where
  "ilog2 a = (if 1 \<le> a then bitlen \<lfloor>a\<rfloor> - 1 else - bitlen (\<lceil>1 / a\<rceil> - 1))"

definition round_even :: "rat \<Rightarrow> int" where
  "round_even x =
     (let f = \<lfloor>x\<rfloor>; r = x - of_int f in
      if r < 1 / 2 then f else if 1 / 2 < r then f + 1 else if even f then f else f + 1)"

definition f_inf :: float32 where
  "f_inf = 0x7F800000"

definition f_qnan :: float32 where
  "f_qnan = 0x7FC00000"

definition f_round_mag :: "rat \<Rightarrow> float32" where
  "f_round_mag a =
     (if a \<le> 0 then 0
      else let e = max (ilog2 a) (- 126);
               m = round_even (a / pow2 (e - 23));
               bits = (e + 126) * 2 ^ 23 + m
           in if 0x7F800000 \<le> bits then f_inf else word_of_int bits)"

definition f_signed :: "bool \<Rightarrow> float32 \<Rightarrow> float32" where
  "f_signed s x = (if s then x OR 0x80000000 else x)"

definition f_round :: "rat \<Rightarrow> float32" where
  "f_round q = f_signed (q < 0) (f_round_mag \<bar>q\<bar>)"

text \<open>
  The operators \<^verbatim>\<open>*\<close>, \<^verbatim>\<open>/\<close>, \<^verbatim>\<open>+\<close> on floats and the conversion from \<^verbatim>\<open>uint32_t\<close>.  Each
  operation rounds once, to binary32, as on the x86-64 targets of the program, where
  float expressions are evaluated in single precision.  A NaN result is the canonical
  quiet NaN; which NaN the hardware returns is not tracked.
\<close>

definition f_mul :: "float32 \<Rightarrow> float32 \<Rightarrow> float32" where
  "f_mul a b =
     (if is_nan a \<or> is_nan b then f_qnan
      else if (is_inf a \<and> is_zero b) \<or> (is_zero a \<and> is_inf b) then f_qnan
      else if is_inf a \<or> is_inf b then f_signed (f_neg a \<noteq> f_neg b) f_inf
      else f_signed (f_neg a \<noteq> f_neg b) (f_round_mag (f_mag a * f_mag b)))"

definition f_div :: "float32 \<Rightarrow> float32 \<Rightarrow> float32" where
  "f_div a b =
     (if is_nan a \<or> is_nan b then f_qnan
      else if (is_inf a \<and> is_inf b) \<or> (is_zero a \<and> is_zero b) then f_qnan
      else if is_inf a \<or> is_zero b then f_signed (f_neg a \<noteq> f_neg b) f_inf
      else if is_inf b then f_signed (f_neg a \<noteq> f_neg b) 0
      else f_signed (f_neg a \<noteq> f_neg b) (f_round_mag (f_mag a / f_mag b)))"

definition f_add :: "float32 \<Rightarrow> float32 \<Rightarrow> float32" where
  "f_add a b =
     (if is_nan a \<or> is_nan b then f_qnan
      else if is_inf a \<and> is_inf b then (if f_neg a = f_neg b then a else f_qnan)
      else if is_inf a then a
      else if is_inf b then b
      else let s = f_val a + f_val b in
           if s = 0 then f_signed (f_neg a \<and> f_neg b) 0 else f_round s)"

definition u32_to_float :: "u32 \<Rightarrow> float32" where
  "u32_to_float c = f_round_mag (of_int (uint c))"

text \<open>The float literals of the sources, as their binary32 patterns.\<close>

definition f_0_5 :: float32 where "f_0_5 = 0x3F000000"
definition f_1 :: float32 where "f_1 = 0x3F800000"
definition f_2 :: float32 where "f_2 = 0x40000000"
definition f_6_5 :: float32 where "f_6_5 = 0x40D00000"
definition f_100 :: float32 where "f_100 = 0x42C80000"
definition f_150 :: float32 where "f_150 = 0x43160000"
definition f_200 :: float32 where "f_200 = 0x43480000"
definition f_400 :: float32 where "f_400 = 0x43C80000"
definition f_1000 :: float32 where "f_1000 = 0x447A0000"
definition f_2000 :: float32 where "f_2000 = 0x44FA0000"

section \<open>types.h: the metrics record\<close>

text \<open>
  \<^verbatim>\<open>smu_metrics_t\<close>, field by field.  The per-core arrays have the fixed capacity
  \<^verbatim>\<open>MAX_CORES\<close> = 16 (\<^verbatim>\<open>MAX_MODULES\<close> = 4 for the SPD temperatures); they are lists of that
  length.
\<close>

definition MAX_CORES :: nat where
  "MAX_CORES = 16"

definition MAX_MODULES :: nat where
  "MAX_MODULES = 4"

record smu_metrics =
  package_power_w :: float32
  ppt_w :: float32
  package_current_a :: float32
  vcore :: float32
  vsoc :: float32
  vddp :: float32
  vddg_ccd :: float32
  vddg_iod :: float32
  vdd_misc :: float32
  cpu_vddio :: float32
  mem_vdd :: float32
  mem_vddq :: float32
  mem_vpp :: float32
  vid :: float32
  core_clock_mhz :: float32
  bclk_mhz :: float32
  fclk_mhz :: float32
  uclk_mhz :: float32
  mclk_mhz :: float32
  memory_clock_mhz :: float32
  core_clocks_ghz :: "float32 list"
  core_clocks_count :: int
  cpu_temp_c :: float32
  core_temps_c :: "float32 list"
  core_temps_count :: int
  tdie_c :: float32
  has_tdie :: bool
  tctl_c :: float32
  has_tctl :: bool
  tccd1_c :: float32
  has_tccd1 :: bool
  tccd2_c :: float32
  has_tccd2 :: bool
  iod_hotspot_c :: float32
  has_iod_hotspot :: bool
  core_voltages :: "float32 list"
  core_voltages_count :: int
  core_usage_pct :: "float32 list"
  core_usage_count :: int
  core_freq_mhz :: "float32 list"
  core_freq_count :: int
  spd_temps_c :: "float32 list"
  spd_temps_count :: int

text \<open>The record after \<^verbatim>\<open>memset(out, 0, sizeof(*out))\<close>.\<close>

definition zero_metrics :: smu_metrics where
  "zero_metrics =
    \<lparr>package_power_w = 0, ppt_w = 0, package_current_a = 0,
     vcore = 0, vsoc = 0, vddp = 0, vddg_ccd = 0, vddg_iod = 0, vdd_misc = 0,
     cpu_vddio = 0, mem_vdd = 0, mem_vddq = 0, mem_vpp = 0, vid = 0,
     core_clock_mhz = 0, bclk_mhz = 0, fclk_mhz = 0, uclk_mhz = 0, mclk_mhz = 0,
     memory_clock_mhz = 0,
     core_clocks_ghz = replicate MAX_CORES 0, core_clocks_count = 0,
     cpu_temp_c = 0,
     core_temps_c = replicate MAX_CORES 0, core_temps_count = 0,
     tdie_c = 0, has_tdie = False, tctl_c = 0, has_tctl = False,
     tccd1_c = 0, has_tccd1 = False, tccd2_c = 0, has_tccd2 = False,
     iod_hotspot_c = 0, has_iod_hotspot = False,
     core_voltages = replicate MAX_CORES 0, core_voltages_count = 0,
     core_usage_pct = replicate MAX_CORES 0, core_usage_count = 0,
     core_freq_mhz = replicate MAX_CORES 0, core_freq_count = 0,
     spd_temps_c = replicate MAX_MODULES 0, spd_temps_count = 0\<rparr>"

section \<open>pm_table.c: the family maps\<close>

text \<open>
  \<^verbatim>\<open>pm_entry_t\<close> pairs a table index with the field it feeds; the anonymous enum of field
  tags is a datatype.  \<^verbatim>\<open>pm_family_map_t\<close> holds the array \<^verbatim>\<open>named[12]\<close>, of which the
  first \<^verbatim>\<open>named_count\<close> entries are initialised; the list \<open>named\<close> holds those.
\<close>

datatype pm_field =
  F_FCLK | F_UCLK | F_MCLK | F_VSOC | F_VDDP | F_VDDG_IOD | F_VDDG_CCD
  | F_VDD_MISC | F_VCORE | F_IOD_HOTSPOT

record pm_entry =
  index :: int
  field_offset :: pm_field

definition entry :: "int \<Rightarrow> pm_field \<Rightarrow> pm_entry" where
  "entry i f = \<lparr>index = i, field_offset = f\<rparr>"

record pm_family_map =
  named :: "pm_entry list"
  named_count :: int
  vid_idx :: int
  ppt_idx :: int
  socket_power_idx :: int
  core_voltage_start :: int
  core_temp_start :: int
  max_cores :: int

definition GRANITE_RIDGE :: pm_family_map where
  "GRANITE_RIDGE =
    \<lparr>named =
       [entry 11 F_IOD_HOTSPOT, entry 58 F_VDD_MISC, entry 71 F_FCLK, entry 75 F_UCLK,
        entry 79 F_MCLK, entry 83 F_VSOC, entry 259 F_VDDG_IOD, entry 261 F_VDDG_CCD,
        entry 269 F_VDDP, entry 271 F_VCORE],
     named_count = 10,
     vid_idx = 275, ppt_idx = 3, socket_power_idx = 29,
     core_voltage_start = 309, core_temp_start = 317, max_cores = 8\<rparr>"

definition VERMEER_380804 :: pm_family_map where
  "VERMEER_380804 =
    \<lparr>named =
       [entry 11 F_IOD_HOTSPOT, entry 48 F_FCLK, entry 50 F_UCLK, entry 51 F_MCLK,
        entry 44 F_VSOC, entry 137 F_VDDP, entry 138 F_VDDG_IOD, entry 139 F_VDDG_CCD,
        entry 40 F_VCORE],
     named_count = 9,
     vid_idx = 10, ppt_idx = 1, socket_power_idx = 29,
     core_voltage_start = 185, core_temp_start = 201, max_cores = 16\<rparr>"

definition VERMEER_380805 :: pm_family_map where
  "VERMEER_380805 =
    \<lparr>named =
       [entry 11 F_IOD_HOTSPOT, entry 48 F_FCLK, entry 50 F_UCLK, entry 51 F_MCLK,
        entry 44 F_VSOC, entry 137 F_VDDP, entry 138 F_VDDG_IOD, entry 139 F_VDDG_CCD,
        entry 39 F_VCORE],
     named_count = 9,
     vid_idx = 10, ppt_idx = 1, socket_power_idx = 29,
     core_voltage_start = 188, core_temp_start = 204, max_cores = 16\<rparr>"

definition VERMEER_380904 :: pm_family_map where
  "VERMEER_380904 =
    \<lparr>named =
       [entry 11 F_IOD_HOTSPOT, entry 48 F_FCLK, entry 50 F_UCLK, entry 51 F_MCLK,
        entry 44 F_VSOC, entry 137 F_VDDP, entry 138 F_VDDG_IOD, entry 139 F_VDDG_CCD,
        entry 40 F_VCORE],
     named_count = 9,
     vid_idx = 10, ppt_idx = 1, socket_power_idx = 29,
     core_voltage_start = 177, core_temp_start = 185, max_cores = 8\<rparr>"

definition VERMEER_380905 :: pm_family_map where
  "VERMEER_380905 =
    \<lparr>named =
       [entry 11 F_IOD_HOTSPOT, entry 48 F_FCLK, entry 50 F_UCLK, entry 51 F_MCLK,
        entry 44 F_VSOC, entry 137 F_VDDP, entry 138 F_VDDG_IOD, entry 139 F_VDDG_CCD,
        entry 39 F_VCORE],
     named_count = 9,
     vid_idx = 10, ppt_idx = 1, socket_power_idx = 29,
     core_voltage_start = 180, core_temp_start = 188, max_cores = 8\<rparr>"

definition CEZANNE_400005 :: pm_family_map where
  "CEZANNE_400005 =
    \<lparr>named =
       [entry 29 F_IOD_HOTSPOT, entry 409 F_FCLK, entry 410 F_UCLK, entry 411 F_MCLK,
        entry 102 F_VSOC, entry 565 F_VDDP, entry 98 F_VCORE],
     named_count = 7,
     vid_idx = 28, ppt_idx = 5, socket_power_idx = 38,
     core_voltage_start = 208, core_temp_start = 216, max_cores = 8\<rparr>"

definition MATISSE_240903 :: pm_family_map where
  "MATISSE_240903 =
    \<lparr>named =
       [entry 11 F_IOD_HOTSPOT, entry 48 F_FCLK, entry 50 F_UCLK, entry 51 F_MCLK,
        entry 44 F_VSOC, entry 125 F_VDDP, entry 126 F_VDDG_IOD, entry 39 F_VCORE],
     named_count = 8,
     vid_idx = 10, ppt_idx = 1, socket_power_idx = 29,
     core_voltage_start = 155, core_temp_start = 163, max_cores = 8\<rparr>"

definition MATISSE_240803 :: pm_family_map where
  "MATISSE_240803 =
    \<lparr>named =
       [entry 11 F_IOD_HOTSPOT, entry 48 F_FCLK, entry 50 F_UCLK, entry 51 F_MCLK,
        entry 44 F_VSOC, entry 125 F_VDDP, entry 126 F_VDDG_IOD, entry 40 F_VCORE],
     named_count = 8,
     vid_idx = 10, ppt_idx = 1, socket_power_idx = 29,
     core_voltage_start = 163, core_temp_start = 179, max_cores = 16\<rparr>"

definition RENOIR_370003 :: pm_family_map where
  "RENOIR_370003 =
    \<lparr>named =
       [entry 29 F_IOD_HOTSPOT, entry 371 F_FCLK, entry 372 F_UCLK, entry 373 F_MCLK,
        entry 101 F_VSOC, entry 527 F_VDDP, entry 97 F_VCORE],
     named_count = 7,
     vid_idx = 28, ppt_idx = 5, socket_power_idx = 38,
     core_voltage_start = 200, core_temp_start = 208, max_cores = 8\<rparr>"

definition RENOIR_370005 :: pm_family_map where
  "RENOIR_370005 =
    \<lparr>named =
       [entry 29 F_IOD_HOTSPOT, entry 378 F_FCLK, entry 379 F_UCLK, entry 380 F_MCLK,
        entry 101 F_VSOC, entry 534 F_VDDP, entry 97 F_VCORE],
     named_count = 7,
     vid_idx = 28, ppt_idx = 5, socket_power_idx = 38,
     core_voltage_start = 207, core_temp_start = 215, max_cores = 8\<rparr>"

definition RAVEN_1E0004 :: pm_family_map where
  "RAVEN_1E0004 =
    \<lparr>named =
       [entry 61 F_IOD_HOTSPOT, entry 166 F_FCLK, entry 167 F_UCLK, entry 168 F_MCLK,
        entry 65 F_VSOC, entry 60 F_VDDP, entry 61 F_VCORE],
     named_count = 7,
     vid_idx = 57, ppt_idx = 5, socket_power_idx = 38,
     core_voltage_start = 104, core_temp_start = 108, max_cores = 4\<rparr>"

definition get_family_map :: "u32 \<Rightarrow> pm_family_map" where
  "get_family_map version =
     (if version = 0x380804 then VERMEER_380804
      else if version = 0x380805 then VERMEER_380805
      else if version = 0x380904 then VERMEER_380904
      else if version = 0x380905 then VERMEER_380905
      else if version = 0x400005 then CEZANNE_400005
      else if version = 0x240903 then MATISSE_240903
      else if version = 0x240803 then MATISSE_240803
      else if version = 0x370003 then RENOIR_370003
      else if version = 0x370005 then RENOIR_370005
      else if version = 0x1E0004 then RAVEN_1E0004
      else GRANITE_RIDGE)"

section \<open>pm_table.c: the decoder\<close>

text \<open>
  The argument \<^verbatim>\<open>const float *table\<close> is modelled by the memory it points to, a function
  from element index to float; a null pointer is \<open>None\<close>.  \<^verbatim>\<open>count\<close> is passed separately,
  as in the source.  The decoder reads the elements 0 to \<open>count - 1\<close> only, which is
  proved among the properties.
\<close>

type_synonym pm_table = "int \<Rightarrow> float32"

definition safe_get :: "pm_table \<Rightarrow> int \<Rightarrow> int \<Rightarrow> float32" where
  "safe_get t count idx = (if 0 \<le> idx \<and> idx < count then t idx else 0)"

text \<open>The body of the loop of \<^verbatim>\<open>apply_named\<close>, and the loop over the first \<^verbatim>\<open>named_count\<close> entries.\<close>

definition apply_named_entry :: "pm_table \<Rightarrow> int \<Rightarrow> smu_metrics \<Rightarrow> pm_entry \<Rightarrow> smu_metrics" where
  "apply_named_entry t count m e =
     (let v = safe_get t count (index e) in
      case field_offset e of
        F_FCLK \<Rightarrow> m\<lparr>fclk_mhz := v\<rparr>
      | F_UCLK \<Rightarrow> m\<lparr>uclk_mhz := v\<rparr>
      | F_MCLK \<Rightarrow> m\<lparr>mclk_mhz := v\<rparr>
      | F_VSOC \<Rightarrow> m\<lparr>vsoc := v\<rparr>
      | F_VDDP \<Rightarrow> m\<lparr>vddp := v\<rparr>
      | F_VDDG_IOD \<Rightarrow> m\<lparr>vddg_iod := v\<rparr>
      | F_VDDG_CCD \<Rightarrow> m\<lparr>vddg_ccd := v\<rparr>
      | F_VDD_MISC \<Rightarrow> m\<lparr>vdd_misc := v\<rparr>
      | F_VCORE \<Rightarrow> m\<lparr>vcore := v\<rparr>
      | F_IOD_HOTSPOT \<Rightarrow>
          if f_ge v f_1 \<and> f_le v f_150
          then m\<lparr>iod_hotspot_c := v, has_iod_hotspot := True\<rparr>
          else m)"

definition apply_named :: "pm_family_map \<Rightarrow> pm_table \<Rightarrow> int \<Rightarrow> smu_metrics \<Rightarrow> smu_metrics" where
  "apply_named fmap t count m =
     foldl (apply_named_entry t count) m (take (nat (named_count fmap)) (named fmap))"

definition read_granite_ridge_offsets :: "pm_table \<Rightarrow> int \<Rightarrow> smu_metrics \<Rightarrow> smu_metrics" where
  "read_granite_ridge_offsets t count m =
     m\<lparr>fclk_mhz := safe_get t count (0x11C div 4),
       uclk_mhz := safe_get t count (0x12C div 4),
       mclk_mhz := safe_get t count (0x13C div 4),
       vsoc := safe_get t count (0x14C div 4),
       vddp := safe_get t count (0x434 div 4),
       vddg_iod := safe_get t count (0x40C div 4),
       vddg_ccd := safe_get t count (0x414 div 4),
       vdd_misc := safe_get t count (0xE8 div 4),
       vcore := safe_get t count (0x43C div 4)\<rparr>"

text \<open>
  The candidate loops (\<^verbatim>\<open>try_plausible_power\<close>, \<^verbatim>\<open>try_plausible_current\<close>,
  \<^verbatim>\<open>try_plausible_temp\<close> and the PPT loop of \<^verbatim>\<open>read_known_indices\<close>) have one shape: walk
  a fixed list of indices and stop at the first value within the bounds.
\<close>

fun first_plausible :: "float32 \<Rightarrow> float32 \<Rightarrow> pm_table \<Rightarrow> int \<Rightarrow> int list \<Rightarrow> float32 option" where
  "first_plausible lo hi t count [] = None"
| "first_plausible lo hi t count (c # cs) =
     (let v = safe_get t count c in
      if f_ge v lo \<and> f_le v hi then Some v else first_plausible lo hi t count cs)"

definition try_plausible_power :: "pm_table \<Rightarrow> int \<Rightarrow> float32" where
  "try_plausible_power t count =
     (case first_plausible f_0_5 f_400 t count [29, 1, 13, 38, 5, 220, 187, 42, 0] of
        Some v \<Rightarrow> v | None \<Rightarrow> 0)"

definition try_plausible_current :: "pm_table \<Rightarrow> int \<Rightarrow> float32" where
  "try_plausible_current t count =
     (case first_plausible f_0_5 f_200 t count [41, 46, 3, 10, 11, 4] of
        Some v \<Rightarrow> v | None \<Rightarrow> 0)"

definition try_plausible_temp :: "pm_table \<Rightarrow> int \<Rightarrow> float32" where
  "try_plausible_temp t count =
     (case first_plausible f_1 f_150 t count [1, 448, 449] of
        Some v \<Rightarrow> v | None \<Rightarrow> 0)"

text \<open>
  A store into one of the fixed-capacity arrays.  A store outside the array would
  overwrite neighbouring memory; the model makes it a failure, \<open>None\<close>, which every
  function that stores into an array passes on.
\<close>

definition store :: "float32 list \<Rightarrow> int \<Rightarrow> float32 \<Rightarrow> float32 list option" where
  "store arr i v = (if 0 \<le> i \<and> i < int (length arr) then Some (arr[nat i := v]) else None)"

text \<open>The loop \<^verbatim>\<open>for (; i < n; i++) arr[i] = table[start + i];\<close>\<close>

function copy_cores :: "pm_table \<Rightarrow> int \<Rightarrow> int \<Rightarrow> int \<Rightarrow> float32 list \<Rightarrow> float32 list option" where
  "copy_cores t start n i arr =
     (if i < n then
        (case store arr i (t (start + i)) of
           None \<Rightarrow> None
         | Some arr' \<Rightarrow> copy_cores t start n (i + 1) arr')
      else Some arr)"
  by pat_completeness auto
termination
  by (relation "measure (\<lambda>(t, start, n, i, arr). nat (n - i))") auto

declare copy_cores.simps [simp del]

text \<open>\<^verbatim>\<open>read_known_indices\<close>, one definition per block of the source, in its order.\<close>

definition known_ppt :: "pm_table \<Rightarrow> int \<Rightarrow> smu_metrics \<Rightarrow> smu_metrics" where
  "known_ppt t count m =
     (case first_plausible f_0_5 f_400 t count [3, 1, 13, 29, 5, 38] of
        Some v \<Rightarrow> m\<lparr>ppt_w := v\<rparr> | None \<Rightarrow> m)"

definition known_core_temps :: "pm_table \<Rightarrow> int \<Rightarrow> smu_metrics \<Rightarrow> smu_metrics option" where
  "known_core_temps t count m =
     (if count > 324 then
        map_option (\<lambda>a. m\<lparr>core_temps_count := 8, core_temps_c := a\<rparr>)
          (copy_cores t 317 8 0 (core_temps_c m))
      else Some m)"

definition known_tdie :: "pm_table \<Rightarrow> int \<Rightarrow> smu_metrics \<Rightarrow> smu_metrics" where
  "known_tdie t count m =
     (if count > 449 then
        (let a = t 448; b = t 449 in
         if f_ge a f_1 \<and> f_le a f_150 then m\<lparr>tdie_c := a, has_tdie := True\<rparr>
         else if f_ge b f_1 \<and> f_le b f_150 then m\<lparr>tdie_c := b, has_tdie := True\<rparr>
         else if f_gt a 0 \<and> f_gt b 0
           then m\<lparr>tdie_c := f_mul (f_add a b) f_0_5, has_tdie := True\<rparr>
         else m)
      else m)"

definition known_core_clocks :: "pm_table \<Rightarrow> int \<Rightarrow> smu_metrics \<Rightarrow> smu_metrics option" where
  "known_core_clocks t count m =
     (if count > 340 then
        map_option (\<lambda>a. m\<lparr>core_clocks_count := 16, core_clocks_ghz := a\<rparr>)
          (copy_cores t 325 16 0 (core_clocks_ghz m))
      else Some m)"

definition known_vid :: "pm_table \<Rightarrow> int \<Rightarrow> smu_metrics \<Rightarrow> smu_metrics" where
  "known_vid t count m = (if count > 275 then m\<lparr>vid := t 275\<rparr> else m)"

definition known_core_voltages :: "pm_table \<Rightarrow> int \<Rightarrow> smu_metrics \<Rightarrow> smu_metrics option" where
  "known_core_voltages t count m =
     (if count > 316 then
        map_option (\<lambda>a. m\<lparr>core_voltages_count := 8, core_voltages := a\<rparr>)
          (copy_cores t 309 8 0 (core_voltages m))
      else Some m)"

definition known_iod_hotspot :: "pm_table \<Rightarrow> int \<Rightarrow> smu_metrics \<Rightarrow> smu_metrics" where
  "known_iod_hotspot t count m =
     (if count > 11 then
        (let v = t 11 in
         if f_ge v f_1 \<and> f_le v f_150
         then m\<lparr>iod_hotspot_c := v, has_iod_hotspot := True\<rparr>
         else m)
      else m)"

definition read_known_indices :: "pm_table \<Rightarrow> int \<Rightarrow> smu_metrics \<Rightarrow> smu_metrics option" where
  "read_known_indices t count m =
     Option.bind (known_core_temps t count (known_ppt t count m)) (\<lambda>m.
     Option.bind (known_core_clocks t count (known_tdie t count m)) (\<lambda>m.
     Option.bind (known_core_voltages t count (known_vid t count m)) (\<lambda>m.
     Some (known_iod_hotspot t count m))))"

text \<open>
  The branch of \<^verbatim>\<open>pm_table_read\<close> for codename index 23.  The overall core clock is
  the maximum of the first \<^verbatim>\<open>core_clocks_count\<close> per-core clocks, found by a loop that
  starts from 0 and compares with \<^verbatim>\<open>>\<close>.
\<close>

definition max_core_clock :: "smu_metrics \<Rightarrow> float32" where
  "max_core_clock m =
     foldl (\<lambda>max_ghz c. if f_gt c max_ghz then c else max_ghz) 0
       (take (nat (core_clocks_count m)) (core_clocks_ghz m))"

definition derive_core_clock :: "smu_metrics \<Rightarrow> smu_metrics" where
  "derive_core_clock m =
     (if core_clocks_count m > 0 then
        (let max_ghz = max_core_clock m in
         if f_ge max_ghz f_0_5 \<and> f_le max_ghz f_6_5
         then m\<lparr>core_clock_mhz := f_mul max_ghz f_1000\<rparr>
         else m)
      else m)"

definition derive_cpu_temp :: "pm_table \<Rightarrow> int \<Rightarrow> smu_metrics \<Rightarrow> smu_metrics" where
  "derive_cpu_temp t count m =
     (if has_tdie m \<and> f_gt (tdie_c m) 0 then m\<lparr>cpu_temp_c := tdie_c m\<rparr>
      else m\<lparr>cpu_temp_c := try_plausible_temp t count\<rparr>)"

definition pm_table_granite :: "pm_table \<Rightarrow> int \<Rightarrow> smu_metrics \<Rightarrow> smu_metrics option" where
  "pm_table_granite t count out =
     Option.bind (read_known_indices t count (read_granite_ridge_offsets t count out)) (\<lambda>m.
     Some (derive_cpu_temp t count (derive_core_clock
       (m\<lparr>package_power_w := try_plausible_power t count,
          package_current_a := try_plausible_current t count\<rparr>))))"

text \<open>
  The branch for every other codename index, with the family fmap as an argument
  (\<^verbatim>\<open>pm_table_read\<close> passes \<^verbatim>\<open>get_family_map(version)\<close>).
\<close>

definition family_core_temps :: "pm_family_map \<Rightarrow> int \<Rightarrow> pm_table \<Rightarrow> int \<Rightarrow> smu_metrics \<Rightarrow> smu_metrics option" where
  "family_core_temps fmap nc t count m =
     (if core_temp_start fmap + nc \<le> count then
        map_option (\<lambda>a. m\<lparr>core_temps_count := nc, core_temps_c := a\<rparr>)
          (copy_cores t (core_temp_start fmap) nc 0 (core_temps_c m))
      else Some m)"

definition family_core_voltages :: "pm_family_map \<Rightarrow> int \<Rightarrow> pm_table \<Rightarrow> int \<Rightarrow> smu_metrics \<Rightarrow> smu_metrics option" where
  "family_core_voltages fmap nc t count m =
     (if core_voltage_start fmap + nc \<le> count then
        map_option (\<lambda>a. m\<lparr>core_voltages_count := nc, core_voltages := a\<rparr>)
          (copy_cores t (core_voltage_start fmap) nc 0 (core_voltages m))
      else Some m)"

definition family_scalars :: "pm_family_map \<Rightarrow> pm_table \<Rightarrow> int \<Rightarrow> smu_metrics \<Rightarrow> smu_metrics" where
  "family_scalars fmap t count m =
     (let v = safe_get t count (vid_idx fmap);
          m = (if f_gt v 0 then m\<lparr>vid := v\<rparr> else m);
          ppt_v = safe_get t count (ppt_idx fmap);
          m = (if f_ge ppt_v f_0_5 \<and> f_le ppt_v f_400 then m\<lparr>ppt_w := ppt_v\<rparr> else m);
          sp = safe_get t count (socket_power_idx fmap);
          m = (if f_ge sp f_0_5 \<and> f_le sp f_400 then m\<lparr>package_power_w := sp\<rparr>
               else m\<lparr>package_power_w := try_plausible_power t count\<rparr>)
      in m\<lparr>package_current_a := try_plausible_current t count,
           cpu_temp_c := try_plausible_temp t count\<rparr>)"

definition pm_table_generic :: "pm_family_map \<Rightarrow> pm_table \<Rightarrow> int \<Rightarrow> smu_metrics \<Rightarrow> smu_metrics option" where
  "pm_table_generic fmap t count out =
     (let nc = (if max_cores fmap > int MAX_CORES then int MAX_CORES else max_cores fmap) in
      Option.bind (family_core_temps fmap nc t count (apply_named fmap t count out)) (\<lambda>m.
      Option.bind (family_core_voltages fmap nc t count m) (\<lambda>m.
      read_known_indices t count (family_scalars fmap t count m))))"

definition pm_table_read :: "u32 \<Rightarrow> pm_table option \<Rightarrow> int \<Rightarrow> int \<Rightarrow> smu_metrics option" where
  "pm_table_read version table count codename_index =
     (case table of
        None \<Rightarrow> Some zero_metrics
      | Some t \<Rightarrow>
          if count < 4 then Some zero_metrics
          else if codename_index = 23 then pm_table_granite t count zero_metrics
          else pm_table_generic (get_family_map version) t count zero_metrics)"

section \<open>types.h: the timing record\<close>

text \<open>
  \<^verbatim>\<open>dram_timings_t\<close>.  The field \<^verbatim>\<open>mod\<close> is \<open>mod_t\<close> here.  \<^verbatim>\<open>cmd2t\<close> is an array of four
  characters holding a C string; \<^verbatim>\<open>phy_rdl_per_channel\<close> has \<^verbatim>\<open>MAX_MODULES\<close> entries.
\<close>

record dram_timings =
  tcl :: u32
  trcd_rd :: u32
  trcd_wr :: u32
  trp :: u32
  tras :: u32
  trc :: u32
  trrds :: u32
  trrdl :: u32
  tfaw :: u32
  twr :: u32
  tcwl :: u32
  rtp :: u32
  wtrs :: u32
  wtrl :: u32
  rdwr :: u32
  wrrd :: u32
  rdrd_scl :: u32
  wrwr_scl :: u32
  rdrd_sc :: u32
  rdrd_sd :: u32
  rdrd_dd :: u32
  wrwr_sc :: u32
  wrwr_sd :: u32
  wrwr_dd :: u32
  refi :: u32
  wrpre :: u32
  rdpre :: u32
  trc_page :: u32
  mod_t :: u32
  mod_pda :: u32
  mrd :: u32
  mrd_pda :: u32
  stag :: u32
  stag_sb :: u32
  cke :: u32
  xp :: u32
  phy_wrd :: u32
  phy_wrl :: u32
  phy_rdl :: u32
  phy_rdl_per_channel :: "u32 list"
  phy_rdl_channel_count :: int
  rfc :: u32
  rfc2 :: u32
  rfcsb :: u32
  trefi_ns :: float32
  trfc_ns :: float32
  trfc2_ns :: float32
  trfcsb_ns :: float32
  gdm_enabled :: bool
  power_down_enabled :: bool
  cmd2t :: "u8 list"
  frequency_hint_mhz :: float32

definition zero_timings :: dram_timings where
  "zero_timings =
    \<lparr>tcl = 0, trcd_rd = 0, trcd_wr = 0, trp = 0, tras = 0, trc = 0,
     trrds = 0, trrdl = 0, tfaw = 0, twr = 0, tcwl = 0,
     rtp = 0, wtrs = 0, wtrl = 0, rdwr = 0, wrrd = 0,
     rdrd_scl = 0, wrwr_scl = 0, rdrd_sc = 0, rdrd_sd = 0, rdrd_dd = 0,
     wrwr_sc = 0, wrwr_sd = 0, wrwr_dd = 0, refi = 0, wrpre = 0, rdpre = 0,
     trc_page = 0, mod_t = 0, mod_pda = 0, mrd = 0, mrd_pda = 0,
     stag = 0, stag_sb = 0, cke = 0, xp = 0, phy_wrd = 0, phy_wrl = 0, phy_rdl = 0,
     phy_rdl_per_channel = replicate MAX_MODULES 0, phy_rdl_channel_count = 0,
     rfc = 0, rfc2 = 0, rfcsb = 0,
     trefi_ns = 0, trfc_ns = 0, trfc2_ns = 0, trfcsb_ns = 0,
     gdm_enabled = False, power_down_enabled = False,
     cmd2t = replicate 4 0, frequency_hint_mhz = 0\<rparr>"

text \<open>The C string held in a character array: the bytes before the first NUL.\<close>

definition c_string :: "u8 list \<Rightarrow> u8 list" where
  "c_string buf = takeWhile (\<lambda>c. c \<noteq> 0) buf"

section \<open>dram.c: the timing decoder\<close>

text \<open>
  \<^verbatim>\<open>read_smn\<close> writes an address to the driver's control file and reads a word back (0
  when the file cannot be opened, written or read).  The decoder reads every address at
  most once per call, so the transport is a function from address to word.
\<close>

type_synonym smn_reader = "u32 \<Rightarrow> u32"

definition to_nanoseconds :: "u32 \<Rightarrow> float32 \<Rightarrow> float32" where
  "to_nanoseconds cycles freq_mhz =
     (if f_le freq_mhz 0 then 0
      else let ns = f_div (f_mul (u32_to_float cycles) f_2000) freq_mhz in
           if f_gt ns (u32_to_float cycles) then f_div ns f_2 else ns)"

definition read_common_timings :: "smn_reader \<Rightarrow> u32 \<Rightarrow> dram_timings \<Rightarrow> dram_timings" where
  "read_common_timings read_smn offset d =
     (let reg50204 = read_smn (offset OR 0x50204);
          reg50208 = read_smn (offset OR 0x50208);
          reg5020C = read_smn (offset OR 0x5020C);
          reg50210 = read_smn (offset OR 0x50210);
          reg50214 = read_smn (offset OR 0x50214);
          reg50218 = read_smn (offset OR 0x50218);
          reg5021C = read_smn (offset OR 0x5021C);
          reg50220 = read_smn (offset OR 0x50220);
          reg50224 = read_smn (offset OR 0x50224);
          reg50228 = read_smn (offset OR 0x50228);
          reg50230 = read_smn (offset OR 0x50230);
          reg50234 = read_smn (offset OR 0x50234);
          reg50250 = read_smn (offset OR 0x50250);
          reg50254 = read_smn (offset OR 0x50254);
          reg50258 = read_smn (offset OR 0x50258);
          reg502A4 = read_smn (offset OR 0x502A4)
      in d\<lparr>tcl := bit_slice reg50204 5 0,
           trcd_rd := bit_slice reg50204 21 16,
           trcd_wr := (if bit_slice reg50204 29 24 = 0 then bit_slice reg50204 21 16
                       else bit_slice reg50204 29 24),
           tras := bit_slice reg50204 14 8,
           trp := bit_slice reg50208 21 16,
           trc := bit_slice reg50208 7 0,
           trrds := bit_slice reg5020C 4 0,
           trrdl := bit_slice reg5020C 12 8,
           tfaw := bit_slice reg50210 7 0,
           rtp := bit_slice reg5020C 28 24,
           wtrs := bit_slice reg50214 12 8,
           wtrl := bit_slice reg50214 22 16,
           tcwl := bit_slice reg50214 5 0,
           twr := (if bit_slice reg50218 7 0 = 0 then bit_slice reg50214 12 8
                   else bit_slice reg50218 7 0),
           trc_page := bit_slice reg5021C 31 20,
           rdrd_scl := bit_slice reg50220 29 24,
           rdrd_sc := bit_slice reg50220 19 16,
           rdrd_sd := bit_slice reg50220 11 8,
           rdrd_dd := bit_slice reg50220 3 0,
           wrwr_scl := bit_slice reg50224 29 24,
           wrwr_sc := bit_slice reg50224 19 16,
           wrwr_sd := bit_slice reg50224 11 8,
           wrwr_dd := bit_slice reg50224 3 0,
           rdwr := bit_slice reg50228 13 8,
           wrrd := bit_slice reg50228 3 0,
           refi := bit_slice reg50230 15 0,
           mod_pda := bit_slice reg50234 29 24,
           mrd_pda := bit_slice reg50234 21 16,
           mod_t := bit_slice reg50234 13 8,
           mrd := bit_slice reg50234 5 0,
           stag := bit_slice reg50250 26 16,
           stag_sb := bit_slice reg50250 8 0,
           cke := bit_slice reg50254 28 24,
           xp := bit_slice reg50254 5 0,
           phy_wrd := bit_slice reg50258 26 24,
           phy_rdl := bit_slice reg50258 23 16,
           phy_wrl := bit_slice reg50258 15 8,
           wrpre := bit_slice reg502A4 10 8,
           rdpre := bit_slice reg502A4 2 0\<rparr>)"

text \<open>
  \<^verbatim>\<open>snprintf(d->cmd2t, sizeof(d->cmd2t), "%s", s)\<close> for a two-character string: the two
  characters and the terminating NUL; the fourth byte of the array is not written.
\<close>

definition write_cmd2t :: "u8 list \<Rightarrow> u8 list \<Rightarrow> u8 list" where
  "write_cmd2t s buf = s @ [0] @ drop (length s + 1) buf"

definition str_1T :: "u8 list" where
  "str_1T = [0x31, 0x54]"

definition str_2T :: "u8 list" where
  "str_2T = [0x32, 0x54]"

text \<open>The two selection loops of \<^verbatim>\<open>read_ddr5_timings\<close>: the first element that is not \<open>skip\<close>, else 0.\<close>

fun first_not :: "u32 \<Rightarrow> u32 list \<Rightarrow> u32" where
  "first_not skip [] = 0"
| "first_not skip (r # rs) = (if r \<noteq> skip then r else first_not skip rs)"

definition read_ddr5_timings :: "smn_reader \<Rightarrow> dram_timings \<Rightarrow> dram_timings" where
  "read_ddr5_timings read_smn d0 =
     (let offset = 0;
          ratio_reg = read_smn (offset OR 0x50200);
          ratio = f_div (u32_to_float (bit_slice ratio_reg 15 0)) f_100;
          mem_freq = f_mul ratio f_200;
          cmd2t_bit = bit_slice ratio_reg 17 17;
          refresh_reg = read_smn (offset OR 0x5012C);
          d = d0\<lparr>frequency_hint_mhz := mem_freq,
                 gdm_enabled := (bit_slice ratio_reg 18 18 = 1),
                 cmd2t := write_cmd2t (if cmd2t_bit \<noteq> 0 then str_2T else str_1T) (cmd2t d0),
                 power_down_enabled := (bit_slice refresh_reg 28 28 = 1)\<rparr>;
          d = read_common_timings read_smn offset d;
          trfc_reg = first_not 0x00C00138
            [read_smn (offset OR 0x50260), read_smn (offset OR 0x50264),
             read_smn (offset OR 0x50268), read_smn (offset OR 0x5026C)];
          d = (if trfc_reg \<noteq> 0
               then d\<lparr>rfc := bit_slice trfc_reg 15 0, rfc2 := bit_slice trfc_reg 31 16\<rparr>
               else d);
          rfcsb_regs =
            [bit_slice (read_smn (offset OR 0x502C0)) 10 0,
             bit_slice (read_smn (offset OR 0x502C4)) 10 0,
             bit_slice (read_smn (offset OR 0x502C8)) 10 0,
             bit_slice (read_smn (offset OR 0x502CC)) 10 0];
          d = (if first_not 0 rfcsb_regs \<noteq> 0 then d\<lparr>rfcsb := first_not 0 rfcsb_regs\<rparr> else d)
      in d\<lparr>trefi_ns := to_nanoseconds (refi d) mem_freq,
           trfc_ns := to_nanoseconds (rfc d) mem_freq,
           trfc2_ns := to_nanoseconds (rfc2 d) mem_freq,
           trfcsb_ns := to_nanoseconds (rfcsb d) mem_freq\<rparr>)"

definition read_ddr4_timings :: "smn_reader \<Rightarrow> dram_timings \<Rightarrow> dram_timings" where
  "read_ddr4_timings read_smn d0 =
     (let offset = 0;
          d = read_common_timings read_smn offset d0;
          trfc0 = read_smn (offset OR 0x50260);
          trfc1 = read_smn (offset OR 0x50264);
          trfc_reg = (if trfc0 \<noteq> trfc1 then (if trfc0 \<noteq> 0x21060138 then trfc0 else trfc1)
                      else trfc0);
          d = (if trfc_reg \<noteq> 0
               then d\<lparr>rfc := bit_slice trfc_reg 10 0, rfc2 := bit_slice trfc_reg 21 11\<rparr>
               else d)
      in d\<lparr>cmd2t := (cmd2t d)[0 := 0], frequency_hint_mhz := 0\<rparr>)"

definition dram_read_timings :: "smn_reader \<Rightarrow> int \<Rightarrow> dram_timings" where
  "dram_read_timings read_smn codename_index =
     (if codename_index = 23 then read_ddr5_timings read_smn zero_timings
      else if codename_index = 4 \<or> codename_index = 9 \<or> codename_index = 10
              \<or> codename_index = 12 \<or> codename_index = 18 \<or> codename_index = 19
        then read_ddr4_timings read_smn zero_timings
      else zero_timings)"

section \<open>aod_voltages.c: locating the AODE operation region\<close>

text \<open>
  \<^verbatim>\<open>find_aod_phys\<close> walks the SSDT tables that \<^verbatim>\<open>acpi_get_table("SSDT", idx, ..)\<close> returns
  for \<open>idx = 1, 2, ..\<close> until the call fails.  A table is modelled by its OEM table
  identifier (8 bytes) and its AML body, the \<^verbatim>\<open>hdr->length - sizeof(*hdr)\<close> bytes after the
  header; the tables the kernel returns are the list, in order.
\<close>

record acpi_table =
  oem_table_id :: "u8 list"
  aml_bytes :: "u8 list"

definition AOD_OEM_ID :: "u8 list" where
  "AOD_OEM_ID = [0x41, 0x4F, 0x44, 0x20, 0x20, 0x20, 0x20, 0x20]"

definition AOD_REGION_SIZE :: nat where
  "AOD_REGION_SIZE = 0x24BB"

definition aode_pattern :: "u8 list" where
  "aode_pattern = [0x5B, 0x80, 0x41, 0x4F, 0x44, 0x45, 0x00]"

text \<open>
  \<^verbatim>\<open>memcpy\<close> of 4 or 8 bytes into an integer on a little-endian machine: the first byte
  is the least significant.  Four bytes give a 32-bit value, which the assignment to
  \<^verbatim>\<open>addr\<close> extends with zeros.
\<close>

fun le_bytes :: "u8 list \<Rightarrow> u64" where
  "le_bytes [] = 0"
| "le_bytes (b # bs) = ucast b + 256 * le_bytes bs"

text \<open>
  The inner loop, from position \<open>i\<close>:
  \<^verbatim>\<open>
  for (i = 0; i + sizeof(aode_pattern) + 10 < aml_len; i++) {
      if (memcmp(aml + i, aode_pattern, sizeof(aode_pattern)) != 0) continue;
      enc = aml[i + sizeof(aode_pattern)];
      if (enc == 0x0C)      { memcpy(&tmp32, aml + i + sizeof(aode_pattern) + 1, 4); addr = tmp32; }
      else if (enc == 0x0E) { memcpy(&addr, aml + i + sizeof(aode_pattern) + 1, 8); }
      else continue;
      return addr;
  }
  \<close>
  \<open>None\<close> is the loop running to its end.
\<close>

function scan_aml :: "u8 list \<Rightarrow> nat \<Rightarrow> u64 option" where
  "scan_aml aml i =
     (if i + length aode_pattern + 10 < length aml then
        (if take (length aode_pattern) (drop i aml) \<noteq> aode_pattern then scan_aml aml (i + 1)
         else let enc = aml ! (i + length aode_pattern) in
           if enc = 0x0C then Some (le_bytes (take 4 (drop (i + length aode_pattern + 1) aml)))
           else if enc = 0x0E then Some (le_bytes (take 8 (drop (i + length aode_pattern + 1) aml)))
           else scan_aml aml (i + 1))
      else None)"
  by pat_completeness auto
termination
  by (relation "measure (\<lambda>(aml, i). length aml - i)") auto

declare scan_aml.simps [simp del]

fun find_aod_phys :: "acpi_table list \<Rightarrow> u64" where
  "find_aod_phys [] = 0"
| "find_aod_phys (tb # tbs) =
     (if oem_table_id tb \<noteq> AOD_OEM_ID then find_aod_phys tbs
      else case scan_aml (aml_bytes tb) 0 of
             Some addr \<Rightarrow> addr
           | None \<Rightarrow> find_aod_phys tbs)"

text \<open>
  \<^verbatim>\<open>aod_voltages_init\<close> gives up when \<^verbatim>\<open>find_aod_phys\<close> returns 0 and otherwise maps
  \<^verbatim>\<open>AOD_REGION_SIZE\<close> bytes at the address: the region it maps, if any.
\<close>

definition aod_region :: "acpi_table list \<Rightarrow> (u64 \<times> nat) option" where
  "aod_region tables =
     (let phys = find_aod_phys tables in
      if phys = 0 then None else Some (phys, AOD_REGION_SIZE))"

section \<open>Notions used to state the properties\<close>

text \<open>A float lies within closed bounds (the source writes \<^verbatim>\<open>v >= lo && v <= hi\<close>).\<close>

abbreviation f_within :: "float32 \<Rightarrow> float32 \<Rightarrow> float32 \<Rightarrow> bool" where
  "f_within v lo hi \<equiv> f_ge v lo \<and> f_le v hi"

text \<open>
  The array a copy loop leaves when it starts at index 0: the entries below \<open>n\<close> come from
  the table, the others are unchanged.
\<close>

definition fill :: "pm_table \<Rightarrow> int \<Rightarrow> int \<Rightarrow> float32 list \<Rightarrow> float32 list" where
  "fill t start n arr = map (\<lambda>k. if int k < n then t (start + int k) else arr ! k) [0..<length arr]"

text \<open>Two tables hold the same floats at every index from 0 up to \<open>count - 1\<close>.\<close>

definition same_below :: "int \<Rightarrow> pm_table \<Rightarrow> pm_table \<Rightarrow> bool" where
  "same_below count t t' = (\<forall>i. 0 \<le> i \<and> i < count \<longrightarrow> t i = t' i)"

text \<open>The per-core arrays have their declared capacity.\<close>

definition capacity_ok :: "smu_metrics \<Rightarrow> bool" where
  "capacity_ok m =
     (length (core_temps_c m) = MAX_CORES \<and> length (core_clocks_ghz m) = MAX_CORES
      \<and> length (core_voltages m) = MAX_CORES \<and> length (core_usage_pct m) = MAX_CORES)"

text \<open>The core count the family pass uses: \<^verbatim>\<open>nc = map->max_cores; if (nc > MAX_CORES) nc = MAX_CORES;\<close>\<close>

definition clamp_cores :: "pm_family_map \<Rightarrow> int" where
  "clamp_cores fm = min (max_cores fm) (int MAX_CORES)"

text \<open>
  The values \<^verbatim>\<open>pm_table_read\<close> reads as candidates for the IOD hotspot: those of the named
  entries tagged \<^verbatim>\<open>F_IOD_HOTSPOT\<close> (generic branch only), then \<^verbatim>\<open>t[11]\<close> when the table has
  more than 11 elements.
\<close>

definition named_hotspot_values :: "pm_family_map \<Rightarrow> pm_table \<Rightarrow> int \<Rightarrow> float32 list" where
  "named_hotspot_values fm t count =
     map (\<lambda>e. safe_get t count (index e))
       (filter (\<lambda>e. field_offset e = F_IOD_HOTSPOT) (take (nat (named_count fm)) (named fm)))"

definition iod_hotspot_candidates :: "u32 \<Rightarrow> pm_table option \<Rightarrow> int \<Rightarrow> int \<Rightarrow> float32 list" where
  "iod_hotspot_candidates version table count codename_index =
     (case table of
        None \<Rightarrow> []
      | Some t \<Rightarrow>
          if count < 4 then []
          else (if codename_index = 23 then []
                else named_hotspot_values (get_family_map version) t count)
               @ (if count > 11 then [t 11] else []))"

text \<open>
  The state of the hotspot field and its flag: a set flag goes with a value that is one of
  the candidates \<open>vs\<close> and lies in [1, 150]; an unset flag goes with the value 0.
\<close>

definition hotspot_from :: "float32 list \<Rightarrow> smu_metrics \<Rightarrow> bool" where
  "hotspot_from vs m =
     (if has_iod_hotspot m
      then iod_hotspot_c m \<in> set vs \<and> f_within (iod_hotspot_c m) f_1 f_150
      else iod_hotspot_c m = 0)"

text \<open>
  A position at which the scan of the AML bytes ends: it is inside the scanned window,
  the signature matches there and the byte after the signature is one of the two tags.
  The address the locator decodes at such a position.
\<close>

definition aod_match :: "u8 list \<Rightarrow> nat \<Rightarrow> bool" where
  "aod_match aml i =
     (i + length aode_pattern + 10 < length aml
      \<and> take (length aode_pattern) (drop i aml) = aode_pattern
      \<and> (aml ! (i + length aode_pattern) = 0x0C \<or> aml ! (i + length aode_pattern) = 0x0E))"

definition aod_address :: "u8 list \<Rightarrow> nat \<Rightarrow> u64" where
  "aod_address aml i =
     (if aml ! (i + length aode_pattern) = 0x0C
      then le_bytes (take 4 (drop (i + length aode_pattern + 1) aml))
      else le_bytes (take 8 (drop (i + length aode_pattern + 1) aml)))"

section \<open>Example inputs\<close>

text \<open>Further float values: 4.0, 50.0, 500.0, 3200.0 and 4000.0.\<close>

definition f_4 :: float32 where "f_4 = 0x40800000"
definition f_50 :: float32 where "f_50 = 0x42480000"
definition f_500 :: float32 where "f_500 = 0x43FA0000"
definition f_3200 :: float32 where "f_3200 = 0x45480000"
definition f_4000 :: float32 where "f_4000 = 0x457A0000"

text \<open>
  Tables used to run the decoder: one whose elements all hold the same value, and one that
  holds a value at the indices \<open>lo..hi\<close> and 0.0 elsewhere.
\<close>

definition tab_const :: "float32 \<Rightarrow> pm_table" where
  "tab_const v i = v"

definition tab_range :: "int \<Rightarrow> int \<Rightarrow> float32 \<Rightarrow> pm_table" where
  "tab_range lo hi v i = (if lo \<le> i \<and> i \<le> hi then v else 0)"

text \<open>
  A table with 1.0 at the per-core temperature indices of the 16-core Vermeer layout
  (201..216) and 50.0 at the fixed indices 317..324.
\<close>

definition tab_vermeer_temps :: pm_table where
  "tab_vermeer_temps i =
     (if 201 \<le> i \<and> i \<le> 216 then f_1 else if 317 \<le> i \<and> i \<le> 324 then f_50 else 0)"

text \<open>A family map that declares 20 cores: the 16-core Vermeer layout with \<^verbatim>\<open>max_cores = 20\<close>.\<close>

definition FAMILY_20_CORES :: pm_family_map where
  "FAMILY_20_CORES = VERMEER_380804\<lparr>max_cores := 20\<rparr>"

text \<open>An SSDT carrying the AOD identifier, with the given AML body.\<close>

definition aod_table :: "u8 list \<Rightarrow> acpi_table" where
  "aod_table body = \<lparr>oem_table_id = AOD_OEM_ID, aml_bytes = body\<rparr>"

text \<open>Register transports: every read fails (0), and every read returns all ones.\<close>

definition smn_zero :: smn_reader where
  "smn_zero a = 0"

definition smn_ones :: smn_reader where
  "smn_ones a = 0xFFFFFFFF"

chapter \<open>Properties\<close>

section \<open>The bit-field extractor\<close>

lemma push_bit_1_minus_1: "(push_bit n 1 - 1 :: u32) = mask n"
  by (simp add: mask_eq_exp_minus_1 push_bit_eq_mult)

lemma all_ones_mask: "(0xFFFFFFFF :: u32) = mask 32"
  by (simp add: mask_eq_exp_minus_1)

lemma unat_and_mask_mod: "unat ((x::u32) AND mask k) = unat x mod 2 ^ k"
proof -
  have "unat (x AND mask k) = unat (take_bit k x)"
    by (simp only: take_bit_eq_mask)
  also have "\<dots> = take_bit k (unat x)"
    by (rule unsigned_take_bit_eq)
  also have "\<dots> = unat x mod 2 ^ k"
    by (rule take_bit_eq_mod)
  finally show ?thesis .
qed

lemma unat_drop_bit_div: "unat (drop_bit n (w::u32)) = unat w div 2 ^ n"
proof -
  have "unat (drop_bit n w) = drop_bit n (unat w)"
    by (rule unat_drop_bit_eq)
  also have "\<dots> = unat w div 2 ^ n"
    by (rule drop_bit_eq_div)
  finally show ?thesis .
qed

text \<open>A non-negative \<^verbatim>\<open>int\<close> read as unsigned.\<close>

lemma nonneg_sint_uint:
  assumes "0 \<le> sint (x::s32)"
  shows "uint x = sint x"
proof -
  have lt: "sint x < 2 ^ 31"
    using sint_lt [of x] by simp
  have "x = word_of_int (sint x)"
    by simp
  then have "uint x = uint (word_of_int (sint x) :: s32)"
    by simp
  also have "\<dots> = take_bit 32 (sint x)"
    by (simp only: uint_word_of_int_eq) simp
  also have "\<dots> = sint x"
    using assms lt by (simp add: take_bit_int_eq_self)
  finally show ?thesis .
qed

lemma nonneg_sint_unat: "0 \<le> sint (x::s32) \<Longrightarrow> unat x = nat (sint x)"
  using nonneg_sint_uint [of x] by (simp add: unat_eq_nat_uint)

text \<open>The width is the mathematical one whenever that fits an \<^verbatim>\<open>int\<close>.\<close>

lemma sint_width:
  assumes "- 2147483648 \<le> sint hi - sint lo + 1" and "sint hi - sint lo + 1 < 2147483648"
  shows "sint (hi - lo + 1 :: s32) = sint hi - sint lo + 1"
proof -
  have "sint (hi - lo + 1) = signed_take_bit 31 (sint (hi - lo) + sint (1 :: s32))"
    by (simp only: sint_word_add) simp
  also have "\<dots> = signed_take_bit 31 (signed_take_bit 31 (sint hi - sint lo) + signed_take_bit 31 1)"
    by (simp only: sint_word_diff sint_word_01) simp
  also have "\<dots> = signed_take_bit 31 (sint hi - sint lo + 1)"
    by (simp only: signed_take_bit_add)
  also have "\<dots> = sint hi - sint lo + 1"
    using assms by (simp add: signed_take_bit_int_eq_self_iff)
  finally show ?thesis .
qed

text \<open>A shift count from 0 to 31 is used as it is.\<close>

lemma shift_count_in_range:
  assumes "0 \<le> sint (lo::s32)" and "sint lo \<le> 31"
  shows "unat (lo AND 31) = nat (sint lo)"
proof -
  have u: "unat lo = nat (sint lo)"
    using assms(1) by (rule nonneg_sint_unat)
  have "(31 :: s32) = mask 5"
    by (simp add: mask_eq_exp_minus_1)
  then have "unat (lo AND 31) = unat lo mod 2 ^ 5"
    by (simp only: unat_and_mask_mod)
  also have "\<dots> = unat lo"
    using assms u by simp
  finally show ?thesis
    by (simp only: u)
qed

lemma bit_slice_mask:
  assumes "0 < sint hi - sint lo + 1" and "sint hi - sint lo + 1 \<le> 32"
  shows "bit_slice w hi lo = drop_bit (unat (lo AND 31)) w AND mask (nat (sint hi - sint lo + 1))"
proof -
  define width where "width = hi - lo + 1"
  have sw: "sint width = sint hi - sint lo + 1"
    unfolding width_def using assms by (intro sint_width) simp_all
  have uw: "unat width = nat (sint hi - sint lo + 1)"
    using nonneg_sint_unat [of width] assms(1) by (simp add: sw)
  show ?thesis
  proof (cases "width = 32")
    case True
    then have "sint hi - sint lo + 1 = 32"
      using sw by simp
    with True show ?thesis
      by (simp add: bit_slice_def all_ones_mask flip: width_def del: mask_eq_iff)
  next
    case False
    have "bit_slice w hi lo = drop_bit (unat (lo AND 31)) w AND (push_bit (unat width) 1 - 1)"
      using assms False by (simp add: bit_slice_def Let_def sw flip: width_def)
    then show ?thesis
      by (simp only: push_bit_1_minus_1 uw)
  qed
qed

lemma bit_slice_outside:
  assumes "sint hi < sint lo \<or> 32 < sint hi - sint lo + 1"
    and "- 2147483648 \<le> sint hi - sint lo + 1" and "sint hi - sint lo + 1 < 2147483648"
  shows "bit_slice w hi lo = 0"
proof -
  have "sint (hi - lo + 1) = sint hi - sint lo + 1"
    using assms(2,3) by (rule sint_width)
  with assms(1) show ?thesis
    by (auto simp: bit_slice_def Let_def)
qed

text \<open>
  The contract of the extractor, wherever \<^verbatim>\<open>hi - lo + 1\<close> does not overflow an \<^verbatim>\<open>int\<close>: for
  \<open>0 \<le> lo \<le> hi \<le> 31\<close> the result is \<^verbatim>\<open>(word >> lo) & ((1 << (hi - lo + 1)) - 1)\<close>, as a word
  and as a number (the bits of the inclusive range, right-aligned:
  \<open>word div 2^lo mod 2^(hi-lo+1)\<close>); and for \<open>hi < lo\<close> or a width above 32 the result is 0.
\<close>

lemma bit_slice_extracts:
  "(0 \<le> sint lo \<and> sint lo \<le> sint hi \<and> sint hi \<le> 31 \<longrightarrow>
      bit_slice w hi lo
        = drop_bit (nat (sint lo)) w AND (push_bit (nat (sint hi - sint lo + 1)) 1 - 1)
      \<and> unat (bit_slice w hi lo)
        = (unat w div 2 ^ nat (sint lo)) mod 2 ^ nat (sint hi - sint lo + 1))
   \<and> ((sint hi < sint lo \<or> 32 < sint hi - sint lo + 1)
        \<and> - 2147483648 \<le> sint hi - sint lo + 1 \<and> sint hi - sint lo + 1 < 2147483648 \<longrightarrow>
      bit_slice w hi lo = 0)"
proof (intro conjI impI)
  assume r: "0 \<le> sint lo \<and> sint lo \<le> sint hi \<and> sint hi \<le> 31"
  then have "bit_slice w hi lo
      = drop_bit (unat (lo AND 31)) w AND mask (nat (sint hi - sint lo + 1))"
    by (intro bit_slice_mask) auto
  moreover have "unat (lo AND 31) = nat (sint lo)"
    using r by (intro shift_count_in_range) auto
  ultimately have m: "bit_slice w hi lo
      = drop_bit (nat (sint lo)) w AND mask (nat (sint hi - sint lo + 1))"
    by simp
  show "bit_slice w hi lo
      = drop_bit (nat (sint lo)) w AND (push_bit (nat (sint hi - sint lo + 1)) 1 - 1)"
    by (simp only: m push_bit_1_minus_1)
  show "unat (bit_slice w hi lo)
      = (unat w div 2 ^ nat (sint lo)) mod 2 ^ nat (sint hi - sint lo + 1)"
    by (simp only: m unat_and_mask_mod unat_drop_bit_div)
next
  assume "(sint hi < sint lo \<or> 32 < sint hi - sint lo + 1)
        \<and> - 2147483648 \<le> sint hi - sint lo + 1 \<and> sint hi - sint lo + 1 < 2147483648"
  then show "bit_slice w hi lo = 0"
    by (intro bit_slice_outside) auto
qed

text \<open>
  The extractor on \<^verbatim>\<open>0xABCD1234\<close>: bits 15..8, the full word, an inverted range, a range of
  width 33, and a negative low position (the shift count is then 31).
\<close>

lemma bit_slice_runs:
  "bit_slice 0xABCD1234 15 8 = 0x12 \<and> unat (bit_slice 0xABCD1234 15 8) = 18
   \<and> bit_slice 0xABCD1234 31 0 = 0xABCD1234
   \<and> bit_slice 0xABCD1234 3 5 = 0 \<and> bit_slice 0xABCD1234 32 0 = 0
   \<and> bit_slice 0xABCD1234 15 (- 1) = 1"
  by (simp add: bit_slice_def)


section \<open>Facts about the floating-point model\<close>

text \<open>
  The named constants are the correctly rounded literals.
\<close>

lemma float_literals:
  "f_0_5 = f_round (1 / 2)" "f_1 = f_round 1" "f_2 = f_round 2" "f_6_5 = f_round (13 / 2)"
  "f_100 = f_round 100" "f_150 = f_round 150" "f_200 = f_round 200" "f_400 = f_round 400"
  "f_1000 = f_round 1000" "f_2000 = f_round 2000"
  "f_4 = f_round 4" "f_50 = f_round 50" "f_500 = f_round 500" "f_3200 = f_round 3200"
  "f_4000 = f_round 4000"
  by code_simp+

text \<open>
  The model on inputs whose binary32 results are known: rounding to nearest with ties to
  even (\<open>2^24 + 1\<close> and \<open>2^24 + 3\<close>), the overflow threshold, the smallest subnormal
  and the tie below it, and operations on signed zeros, infinities and the largest and
  smallest finite values.
\<close>

lemma binary32_rounding:
  "f_round (1 / 10) = 0x3DCCCCCD"
  "f_round (1 / 3) = 0x3EAAAAAB"
  "f_round (2 ^ 24 + 1) = 0x4B800000"
  "f_round (2 ^ 24 + 3) = 0x4B800002"
  "f_round (2 ^ 128 - 2 ^ 103) = 0x7F800000"
  "f_round (2 ^ 128 - 2 ^ 103 - 1) = 0x7F7FFFFF"
  "f_round (1 / 2 ^ 149) = 0x00000001"
  "f_round (1 / 2 ^ 150) = 0x00000000"
  "f_round (3 / 2 ^ 150) = 0x00000002"
  "f_round (- 3) = 0xC0400000"
  by code_simp+

lemma binary32_operations:
  "f_div 0x3F800000 0x40400000 = 0x3EAAAAAB"
  "f_mul 0x3DCCCCCD 0x3DCCCCCD = 0x3C23D70B"
  "f_add 0x3DCCCCCD 0x3E4CCCCD = 0x3E99999A"
  "f_mul 0x7F7FFFFF 0x40000000 = 0x7F800000"
  "f_mul 0x00000001 0x3F000000 = 0x00000000"
  "f_div 0x3F800000 0x00000000 = 0x7F800000"
  "f_div 0xBF800000 0x00000000 = 0xFF800000"
  "f_add 0x80000000 0x80000000 = 0x80000000"
  "f_add 0x3F800000 0xBF800000 = 0x00000000"
  "f_div 0x3F800000 0x7F800000 = 0x00000000"
  "f_div 0x3F800000 0xFF800000 = 0x80000000"
  "is_nan (f_div 0 0)" "is_nan (f_mul 0x7F800000 0)" "is_nan (f_add 0x7F800000 0xFF800000)"
  "u32_to_float 16777217 = 0x4B800000"
  "u32_to_float 4294967295 = 0x4F800000"
  "u32_to_float 0 = 0"
  by code_simp+

lemma binary32_comparisons:
  "\<not> f_lt 0x80000000 0" "f_le 0x80000000 0" "f_le 0 0x80000000"
  "f_lt 0x7F7FFFFF 0x7F800000" "f_lt 0xFF800000 0xFF7FFFFF" "f_le 0x7F800000 0x7F800000"
  "\<not> f_lt f_qnan f_1" "\<not> f_le f_1 f_qnan" "\<not> f_le f_qnan f_qnan"
  by code_simp+

lemmas f_fields = is_nan_def f_val_def f_mag_def f_neg_def f_expo_def f_frac_def pow2_def

lemma not_nan_zero [simp]: "\<not> is_nan 0"
  by (simp add: f_fields)

lemma f_val_zero [simp]: "f_val 0 = 0"
  by (simp add: f_fields)

lemma is_nan_qnan: "is_nan f_qnan"
  by (simp add: f_qnan_def f_fields)

lemma f_0_5_value: "\<not> is_nan f_0_5" "f_val f_0_5 = 1 / 2"
  by (simp_all add: f_0_5_def f_fields)

lemma f_1_value: "\<not> is_nan f_1" "f_val f_1 = 1"
  by (simp_all add: f_1_def f_fields)

lemma f_4_value: "\<not> is_nan f_4" "f_val f_4 = 4"
  by (simp_all add: f_4_def f_fields)

lemma f_6_5_value: "\<not> is_nan f_6_5" "f_val f_6_5 = 13 / 2"
  by (simp_all add: f_6_5_def f_fields)

lemma f_50_value: "\<not> is_nan f_50" "f_val f_50 = 50"
  by (simp_all add: f_50_def f_fields)

lemma f_100_value: "\<not> is_nan f_100" "f_val f_100 = 100"
  by (simp_all add: f_100_def f_fields)

lemma f_150_value: "\<not> is_nan f_150" "f_val f_150 = 150"
  by (simp_all add: f_150_def f_fields)

lemma f_200_value: "\<not> is_nan f_200" "f_val f_200 = 200"
  by (simp_all add: f_200_def f_fields)

lemma f_500_value: "\<not> is_nan f_500" "f_val f_500 = 500"
  by (simp_all add: f_500_def f_fields)

lemma f_3200_value: "\<not> is_nan f_3200" "f_val f_3200 = 3200"
  by (simp_all add: f_3200_def f_fields)

lemma f_le_zero_iff: "f_le x 0 \<longleftrightarrow> \<not> is_nan x \<and> f_val x \<le> 0"
  by (simp add: f_le_def)

lemma f_within_1_150:
  "f_within v f_1 f_150 \<longleftrightarrow> \<not> is_nan v \<and> 1 \<le> f_val v \<and> f_val v \<le> 150"
  by (auto simp: f_le_def f_1_value f_150_value)

lemma f_within_0_5_6_5:
  "f_within v f_0_5 f_6_5 \<longleftrightarrow> \<not> is_nan v \<and> 1 / 2 \<le> f_val v \<and> f_val v \<le> 13 / 2"
  by (auto simp: f_le_def f_0_5_value f_6_5_value)

lemma f_div_nan: "is_nan b \<Longrightarrow> f_div a b = f_qnan"
  by (simp add: f_div_def)

lemma f_lt_nan: "is_nan a \<Longrightarrow> \<not> f_lt b a"
  by (simp add: f_lt_def)

text \<open>Lists of a fixed small length, written out.\<close>

lemma upt_8: "[0..<8] = [0, 1, 2, 3, 4, 5, 6, 7]"
  by code_simp

lemma upt_16: "[0..<16] = [0, 1, 2, 3, 4, 5, 6, 7, 8, 9, 10, 11, 12, 13, 14, 15]"
  by code_simp

lemma replicate_8: "replicate 8 x = [x, x, x, x, x, x, x, x]"
  by (simp add: numeral_eq_Suc)

lemma replicate_16: "replicate 16 x = [x, x, x, x, x, x, x, x, x, x, x, x, x, x, x, x]"
  by (simp add: numeral_eq_Suc)

text \<open>The fields of a pattern, arithmetically.\<close>

lemma uint_and_mask_mod: "uint ((x::u32) AND mask k) = uint x mod 2 ^ k"
proof -
  have "uint (x AND mask k) = uint (take_bit k x)"
    by (simp only: take_bit_eq_mask)
  also have "\<dots> = take_bit k (uint x)"
    by (rule unsigned_take_bit_eq)
  also have "\<dots> = uint x mod 2 ^ k"
    by (rule take_bit_eq_mod)
  finally show ?thesis .
qed

lemma uint_drop_bit_div: "uint (drop_bit n (w::u32)) = uint w div 2 ^ n"
proof -
  have "uint (drop_bit n w) = int (unat (drop_bit n w))"
    by simp
  also have "\<dots> = int (unat w div 2 ^ n)"
    by (simp only: unat_drop_bit_div)
  also have "\<dots> = uint w div 2 ^ n"
    by (simp add: zdiv_int)
  finally show ?thesis .
qed

lemma f_expo_div: "f_expo x = uint x div 2 ^ 23 mod 2 ^ 8"
proof -
  have "(0xFF :: u32) = mask 8"
    by (simp add: mask_eq_exp_minus_1)
  then show ?thesis
    by (simp only: f_expo_def uint_and_mask_mod uint_drop_bit_div)
qed

lemma f_frac_mod: "f_frac x = uint x mod 2 ^ 23"
proof -
  have "(0x7FFFFF :: u32) = mask 23"
    by (simp add: mask_eq_exp_minus_1)
  then show ?thesis
    by (simp only: f_frac_def uint_and_mask_mod)
qed

lemma top_bit_div:
  assumes "0 \<le> (u::int)" "u < 2 ^ 32"
  shows "odd (u div 2 ^ 31) \<longleftrightarrow> 2 ^ 31 \<le> u"
proof (cases "2 ^ 31 \<le> u")
  case False
  with assms have "u div 2 ^ 31 = 0"
    by (intro div_pos_pos_trivial) simp_all
  with False show ?thesis by simp
next
  case True
  define r where "r = u - 2 ^ 31"
  have r: "0 \<le> r" "r < 2 ^ 31" "u = 2 ^ 31 + r"
    using True assms by (simp_all add: r_def)
  have "r div 2 ^ 31 = 0"
    using r(1,2) by (intro div_pos_pos_trivial)
  then have "u div 2 ^ 31 = 1"
    unfolding r(3) by simp
  with True show ?thesis by simp
qed

lemma f_neg_ge: "f_neg x \<longleftrightarrow> 2 ^ 31 \<le> uint x"
proof -
  have "f_neg x \<longleftrightarrow> bit (uint x) 31"
    by (simp add: f_neg_def bit_uint_iff)
  also have "\<dots> \<longleftrightarrow> odd (uint x div 2 ^ 31)"
    by (rule bit_iff_odd)
  also have "\<dots> \<longleftrightarrow> 2 ^ 31 \<le> uint x"
    using uint_bounded [of x] by (intro top_bit_div) simp_all
  finally show ?thesis .
qed

lemma uint_word_of_int_small: "0 \<le> b \<Longrightarrow> b < 2 ^ 32 \<Longrightarrow> uint (word_of_int b :: u32) = b"
  by (simp add: uint_word_of_int take_bit_eq_mod)

text \<open>Decoding a pattern given by its exponent field and fraction.\<close>

lemma decode_fields:
  assumes "0 \<le> E" "E < 255" "0 \<le> Fr" "Fr < 2 ^ 23"
  shows "f_expo (word_of_int (E * 2 ^ 23 + Fr)) = E"
    and "f_frac (word_of_int (E * 2 ^ 23 + Fr)) = Fr"
    and "\<not> f_neg (word_of_int (E * 2 ^ 23 + Fr))"
proof -
  let ?b = "E * 2 ^ 23 + Fr"
  have b: "0 \<le> ?b" "?b < 2 ^ 31"
  proof -
    show "0 \<le> ?b" using assms by simp
    have "E * 2 ^ 23 \<le> 254 * 2 ^ 23"
      using assms by (intro mult_right_mono) simp_all
    with assms show "?b < 2 ^ 31" by simp
  qed
  have u: "uint (word_of_int ?b :: u32) = ?b"
    using b by (intro uint_word_of_int_small) simp_all
  have d: "?b div 2 ^ 23 = E"
    using assms by (simp add: div_pos_pos_trivial)
  have m: "?b mod 2 ^ 23 = Fr"
    using assms by (simp add: mod_pos_pos_trivial)
  show "f_expo (word_of_int ?b) = E"
    unfolding f_expo_div u d using assms by (simp add: mod_pos_pos_trivial)
  show "f_frac (word_of_int ?b) = Fr"
    unfolding f_frac_mod u by (rule m)
  show "\<not> f_neg (word_of_int ?b)"
    unfolding f_neg_ge u using b by simp
qed

lemma round_even_of_int: "round_even (of_int z) = z"
  by (simp add: round_even_def)

lemma pow2_nonpos: "i \<le> 0 \<Longrightarrow> pow2 i = 1 / 2 ^ nat (- i)"
  by (cases "i = 0") (simp_all add: pow2_def)

lemma pow2_nonneg: "0 \<le> i \<Longrightarrow> pow2 i = 2 ^ nat i"
  by (simp add: pow2_def)

text \<open>Integers below \<open>2^24\<close> are binary32 values: converting one is exact.\<close>

lemma f_round_mag_small_int:
  assumes "0 < n" "n < 2 ^ 24"
  shows "\<not> is_nan (f_round_mag (of_int n))" and "\<not> f_neg (f_round_mag (of_int n))"
    and "f_mag (f_round_mag (of_int n)) = of_int n"
proof -
  define e where "e = bitlen n - 1"
  define k where "k = nat (23 - e)"
  have bl: "2 ^ nat e \<le> n" "n < 2 ^ nat (e + 1)"
    using bitlen_bounds [OF assms(1)] by (simp_all add: e_def)
  have e0: "0 \<le> e"
    using assms(1) bitlen_nonneg [of n] bitlen_eq_zero_iff [of n] by (simp add: e_def)
  have "(2::int) ^ nat e < 2 ^ 24"
    using bl(1) assms(2) by simp
  have "nat e < 24"
  proof (rule ccontr)
    assume "\<not> nat e < 24"
    then have "(2::int) ^ 24 \<le> 2 ^ nat e"
      by (intro power_increasing) simp_all
    with \<open>(2::int) ^ nat e < 2 ^ 24\<close> show False by simp
  qed
  then have e23: "e \<le> 23" by simp
  have ke: "nat e + k = 23"
    using e0 e23 by (simp add: k_def)
  define m where "m = n * 2 ^ k"
  have "(2::int) ^ nat e * 2 ^ k \<le> m"
    unfolding m_def using bl(1) by (intro mult_right_mono) simp_all
  then have m_lo: "2 ^ 23 \<le> m"
    by (simp add: ke flip: power_add)
  have "m < 2 ^ nat (e + 1) * 2 ^ k"
    unfolding m_def using bl(2) by (intro mult_strict_right_mono) simp_all
  moreover have "nat (e + 1) + k = 24"
    using e0 e23 by (simp add: k_def)
  ultimately have m_hi: "m < 2 ^ 24"
    by (simp flip: power_add)
  have a1: "(1::rat) \<le> of_int n"
    using assms(1) by simp
  have il: "ilog2 (of_int n) = e"
    using a1 by (simp add: ilog2_def e_def)
  have mx: "max e (- 126) = e"
    using e0 by simp
  have "of_int n / pow2 (e - 23) = (of_int n * 2 ^ k :: rat)"
    using e23 by (simp add: pow2_nonpos k_def)
  also have "\<dots> = of_int m"
    by (simp add: m_def)
  finally have q: "of_int n / pow2 (e - 23) = (of_int m :: rat)" .
  let ?bits = "(e + 126) * 2 ^ 23 + m"
  have bits_eq: "?bits = (e + 127) * 2 ^ 23 + (m - 2 ^ 23)"
    by (simp add: algebra_simps)
  have "(e + 126) * 2 ^ 23 \<le> 149 * (2 ^ 23 :: int)"
    using e23 by (intro mult_right_mono) simp_all
  with m_hi have small: "\<not> 0x7F800000 \<le> ?bits"
    by simp
  have r: "f_round_mag (of_int n) = word_of_int ((e + 127) * 2 ^ 23 + (m - 2 ^ 23))"
    using assms(1) small
    by (simp add: f_round_mag_def il mx q round_even_of_int Let_def flip: bits_eq)
  have fields: "f_expo (f_round_mag (of_int n)) = e + 127"
    "f_frac (f_round_mag (of_int n)) = m - 2 ^ 23"
    "\<not> f_neg (f_round_mag (of_int n))"
    unfolding r using e0 e23 m_lo m_hi by (intro decode_fields; simp)+
  show "\<not> is_nan (f_round_mag (of_int n))"
    using e23 by (simp add: is_nan_def fields)
  show "\<not> f_neg (f_round_mag (of_int n))"
    by (rule fields)
  have "f_mag (f_round_mag (of_int n)) = of_int m * pow2 (e - 23)"
    using e0 by (simp add: f_mag_def fields)
  also have "\<dots> = of_int n * 2 ^ k / 2 ^ k"
    using e23 by (simp add: m_def pow2_nonpos k_def)
  also have "\<dots> = of_int n"
    by simp
  finally show "f_mag (f_round_mag (of_int n)) = of_int n" .
qed

lemma u32_to_float_exact:
  assumes "unat cycles < 2 ^ 24"
  shows "\<not> is_nan (u32_to_float cycles)" and "f_val (u32_to_float cycles) = of_nat (unat cycles)"
proof -
  define n where "n = uint cycles"
  have n: "0 \<le> n" "n < 2 ^ 24" "of_nat (unat cycles) = (of_int n :: rat)"
  proof -
    show "0 \<le> n" by (simp add: n_def)
    have "int (unat cycles) < 2 ^ 24"
      using assms by (simp only: of_nat_less_numeral_power_cancel_iff)
    then show "n < 2 ^ 24" by (simp add: n_def)
    show "of_nat (unat cycles) = (of_int n :: rat)"
      by (simp only: n_def uint_nat of_int_of_nat_eq)
  qed
  have conv: "u32_to_float cycles = f_round_mag (of_int n)"
    by (simp add: u32_to_float_def n_def)
  show "\<not> is_nan (u32_to_float cycles)"
  proof (cases "n = 0")
    case True
    then show ?thesis by (simp add: conv f_round_mag_def)
  next
    case False
    with n(1) have "0 < n" by linarith
    then show ?thesis
      unfolding conv using n(2) by (rule f_round_mag_small_int)
  qed
  show "f_val (u32_to_float cycles) = of_nat (unat cycles)"
  proof (cases "n = 0")
    case True
    have "f_val (u32_to_float cycles) = 0"
      by (simp add: conv True f_round_mag_def)
    also have "0 = (of_int n :: rat)"
      by (simp add: True)
    finally show ?thesis
      by (simp only: n(3))
  next
    case False
    with n(1) have "0 < n" by linarith
    with n(2) have b: "0 < n" "n < 2 ^ 24" by blast+
    have "f_val (u32_to_float cycles) = f_mag (f_round_mag (of_int n))"
      using f_round_mag_small_int(2) [OF b] by (simp add: f_val_def conv)
    also have "\<dots> = of_int n"
      by (rule f_round_mag_small_int(3) [OF b])
    finally show ?thesis
      by (simp only: n(3))
  qed
qed

lemma pow2_powi: "pow2 k = 2 powi k"
  by (simp add: pow2_def power_int_def field_simps)

text \<open>Rounding to an integer moves a number by at most one half and respects integer bounds.\<close>

lemma round_even_cases:
  "round_even x = \<lfloor>x\<rfloor> \<and> x - of_int \<lfloor>x\<rfloor> \<le> 1 / 2
   \<or> round_even x = \<lfloor>x\<rfloor> + 1 \<and> 1 / 2 \<le> x - of_int \<lfloor>x\<rfloor>"
  by (auto simp: round_even_def Let_def)

lemma round_even_near: "\<bar>of_int (round_even x) - x\<bar> \<le> 1 / 2"
proof -
  have "of_int \<lfloor>x\<rfloor> \<le> x" "x < of_int \<lfloor>x\<rfloor> + 1"
    by linarith+
  with round_even_cases [of x] show ?thesis
    by auto
qed

lemma round_even_ge: "of_int k \<le> x \<Longrightarrow> k \<le> round_even x"
proof -
  assume "of_int k \<le> x"
  then have "k \<le> \<lfloor>x\<rfloor>"
    by (simp add: le_floor_iff)
  with round_even_cases [of x] show ?thesis
    by auto
qed

lemma round_even_le: "x \<le> of_int k \<Longrightarrow> round_even x \<le> k"
proof (cases "x = of_int k")
  case True
  then show ?thesis
    by (simp add: round_even_of_int)
next
  case False
  assume "x \<le> of_int k"
  with False have "x < of_int k"
    by simp
  then have "\<lfloor>x\<rfloor> < k"
    by (simp add: floor_less_iff)
  with round_even_cases [of x] show ?thesis
    by auto
qed

lemma f_frac_bounds: "0 \<le> f_frac x" "f_frac x < 2 ^ 23"
  by (simp_all add: f_frac_mod)

lemma f_expo_bounds: "0 \<le> f_expo x" "f_expo x < 256"
  by (simp_all add: f_expo_div)

lemma pow2_pos: "0 < pow2 k"
  by (simp add: pow2_powi)

lemma f_mag_nonneg: "0 \<le> f_mag x"
  using f_frac_bounds(1) [of x] pow2_pos [of "- 149"] pow2_pos [of "f_expo x - 150"]
  by (simp add: f_mag_def)

text \<open>
  The binary32 values from \<open>2^(23+j)\<close> upwards are multiples of \<open>2^j\<close>: from \<open>2^23\<close> on the
  values are integers, and the spacing doubles with every binade.
\<close>

lemma f_val_grid:
  assumes "2 ^ (23 + j) \<le> f_val x"
  shows "\<exists>K::int. f_val x = of_int K * 2 ^ j"
proof -
  have pos: "(0::rat) < 2 ^ (23 + j)"
    by simp
  have nn: "\<not> f_neg x"
  proof
    assume "f_neg x"
    then have "f_val x \<le> 0"
      using f_mag_nonneg [of x] by (simp add: f_val_def)
    with assms pos show False
      by linarith
  qed
  then have v: "f_val x = f_mag x"
    by (simp add: f_val_def)
  define E where "E = f_expo x"
  define Fr where "Fr = f_frac x"
  have fr: "0 \<le> Fr" "Fr < 2 ^ 23"
    using f_frac_bounds [of x] by (simp_all add: Fr_def)
  have one: "(1::rat) \<le> 2 ^ (23 + j)"
    by (rule one_le_power) simp
  have E0: "E \<noteq> 0"
  proof
    assume z: "E = 0"
    then have "f_mag x = of_int Fr * pow2 (- 149)"
      by (simp add: f_mag_def E_def Fr_def)
    also have "\<dots> = of_int Fr / 2 ^ 149"
      by (simp add: pow2_def)
    also have "\<dots> < 1"
    proof -
      have "(of_int Fr :: rat) < 2 ^ 23"
        using fr(2) by (metis of_int_less_numeral_power_cancel_iff)
      also have "\<dots> \<le> 2 ^ 149"
        by (intro power_increasing) simp_all
      finally show ?thesis
        by simp
    qed
    finally show False
      using assms one v by linarith
  qed
  then have m: "f_mag x = of_int (2 ^ 23 + Fr) * pow2 (E - 150)"
    by (simp add: f_mag_def E_def Fr_def)
  have sig: "(of_int (2 ^ 23 + Fr) :: rat) < 2 ^ 24"
  proof -
    have "2 ^ 23 + Fr < 2 ^ 24"
      using fr(2) by simp
    then show ?thesis
      by (metis of_int_less_numeral_power_cancel_iff)
  qed
  have ge: "int j \<le> E - 150"
  proof (rule ccontr)
    assume "\<not> int j \<le> E - 150"
    then have "E - 150 \<le> int j - 1"
      by simp
    then have "pow2 (E - 150) \<le> pow2 (int j - 1)"
      unfolding pow2_powi by (intro power_int_increasing) simp_all
    with sig have "of_int (2 ^ 23 + Fr) * pow2 (E - 150) < 2 ^ 24 * pow2 (int j - 1)"
      using pow2_pos [of "E - 150"] pow2_pos [of "int j - 1"] fr(1)
      by (intro mult_less_le_imp_less) simp_all
    also have "2 ^ 24 * pow2 (int j - 1) = (2::rat) powi (24 + (int j - 1))"
      unfolding pow2_powi by (subst power_int_add) simp_all
    also have "\<dots> = 2 powi int (23 + j)"
      by (simp add: algebra_simps)
    also have "\<dots> = 2 ^ (23 + j)"
      by (rule power_int_of_nat)
    finally show False
      using assms v m by simp
  qed
  define d where "d = nat (E - 150 - int j)"
  have "pow2 (E - 150) = 2 powi (int j + int d)"
    using ge by (simp add: pow2_powi d_def)
  also have "\<dots> = 2 powi int j * 2 powi int d"
    by (rule power_int_add) simp
  also have "\<dots> = (2::rat) ^ j * 2 ^ d"
    by (simp only: power_int_of_nat)
  finally have p: "pow2 (E - 150) = (2::rat) ^ j * 2 ^ d" .
  have "f_val x = of_int ((2 ^ 23 + Fr) * 2 ^ d) * 2 ^ j"
    by (simp add: v m p)
  then show ?thesis
    by blast
qed

text \<open>
  Converting an integer from \<open>2^24\<close> up to \<open>2^32 - 1\<close>: the result is a multiple \<open>M * 2^j\<close>
  of the spacing \<open>2^j\<close> of its binade, at most half a spacing away.
\<close>

lemma f_round_mag_big_int:
  assumes "2 ^ 24 \<le> n" "n < 2 ^ 32"
  shows "\<exists>j M. 2 ^ (23 + j) \<le> (of_int n :: rat)
           \<and> 2 ^ (23 + j) \<le> f_val (f_round_mag (of_int n))
           \<and> \<not> is_nan (f_round_mag (of_int n))
           \<and> f_val (f_round_mag (of_int n)) = of_int M * 2 ^ j
           \<and> \<bar>f_val (f_round_mag (of_int n)) - of_int n\<bar> \<le> 2 ^ j / 2"
proof -
  have n0: "0 < n"
    using assms(1) by simp
  define e where "e = bitlen n - 1"
  have bl: "2 ^ nat e \<le> n" "n < 2 ^ nat (e + 1)"
    using bitlen_bounds [OF n0] by (simp_all add: e_def)
  have e_lo: "24 \<le> e"
  proof (rule ccontr)
    assume "\<not> 24 \<le> e"
    then have "nat (e + 1) \<le> 24"
      by simp
    then have "(2::int) ^ nat (e + 1) \<le> 2 ^ 24"
      by (intro power_increasing) simp_all
    with bl(2) assms(1) show False
      by simp
  qed
  have e_hi: "e \<le> 31"
  proof (rule ccontr)
    assume "\<not> e \<le> 31"
    then have "32 \<le> nat e"
      by simp
    then have "(2::int) ^ 32 \<le> 2 ^ nat e"
      by (intro power_increasing) simp_all
    with bl(1) assms(2) show False
      by simp
  qed
  define j where "j = nat (e - 23)"
  have je: "nat e = 23 + j" "nat (e + 1) = 24 + j" "e - 23 = int j"
    using e_lo by (simp_all add: j_def)
  have lo: "(2::rat) ^ (23 + j) \<le> of_int n"
  proof -
    have "(of_int ((2::int) ^ (23 + j)) :: rat) \<le> of_int n"
      using bl(1) unfolding je by (simp only: of_int_le_iff)
    then show ?thesis
      by simp
  qed
  have hi: "(of_int n :: rat) < 2 ^ (24 + j)"
  proof -
    have "(of_int n :: rat) < of_int ((2::int) ^ (24 + j))"
      using bl(2) unfolding je by (simp only: of_int_less_iff)
    then show ?thesis
      by simp
  qed
  define q where "q = (of_int n :: rat) / 2 ^ j"
  have q_lo: "of_int (2 ^ 23) \<le> q"
    using lo by (simp add: q_def power_add field_simps)
  have q_hi: "q \<le> of_int (2 ^ 24)"
    using hi by (simp add: q_def power_add field_simps)
  define M where "M = round_even q"
  have M_lo: "2 ^ 23 \<le> M"
    unfolding M_def using q_lo by (rule round_even_ge)
  have M_hi: "M \<le> 2 ^ 24"
    unfolding M_def using q_hi by (rule round_even_le)
  have near: "\<bar>of_int M - q\<bar> \<le> 1 / 2"
    unfolding M_def by (rule round_even_near)
  have a1: "(1::rat) \<le> of_int n"
    using n0 by simp
  have il: "ilog2 (of_int n) = e"
    using a1 by (simp add: ilog2_def e_def)
  have mx: "max e (- 126) = e"
    using e_lo by simp
  have p: "pow2 (e - 23) = 2 ^ j"
    unfolding je by (simp add: pow2_nonneg)
  let ?bits = "(e + 126) * 2 ^ 23 + M"
  have "(e + 126) * 2 ^ 23 \<le> 157 * (2 ^ 23 :: int)"
    using e_hi by (intro mult_right_mono) simp_all
  with M_hi have small: "\<not> 0x7F800000 \<le> ?bits"
    by simp
  define F where "F = f_round_mag (of_int n)"
  have r: "F = word_of_int ?bits"
    using n0 small by (simp add: F_def f_round_mag_def il mx p Let_def flip: q_def M_def)
  have dec: "\<not> is_nan F \<and> f_val F = of_int M * 2 ^ j"
  proof (cases "M = 2 ^ 24")
    case True
    have b: "?bits = (e + 128) * 2 ^ 23 + 0"
      by (simp add: True algebra_simps)
    have fields: "f_expo F = e + 128" "f_frac F = 0" "\<not> f_neg F"
      unfolding r b using e_lo e_hi by (intro decode_fields; simp)+
    have "f_mag F = 2 ^ 23 * pow2 (e - 22)"
      using e_lo by (simp add: f_mag_def fields)
    also have "e - 22 = int (j + 1)"
      using je(3) by simp
    also have "pow2 (int (j + 1)) = 2 ^ (j + 1)"
      by (simp only: pow2_nonneg of_nat_0_le_iff nat_int)
    also have "2 ^ 23 * 2 ^ (j + 1) = of_int M * (2::rat) ^ j"
      by (simp add: True)
    finally show ?thesis
      using e_hi by (simp add: is_nan_def f_val_def fields)
  next
    case False
    with M_hi have M_lt: "M < 2 ^ 24"
      by simp
    have b: "?bits = (e + 127) * 2 ^ 23 + (M - 2 ^ 23)"
      by (simp add: algebra_simps)
    have fields: "f_expo F = e + 127" "f_frac F = M - 2 ^ 23" "\<not> f_neg F"
      unfolding r b using e_lo e_hi M_lo M_lt by (intro decode_fields; simp)+
    have "f_mag F = of_int M * pow2 (e - 23)"
      using e_lo by (simp add: f_mag_def fields)
    then show ?thesis
      using e_hi by (simp add: is_nan_def f_val_def fields p)
  qed
  have "of_int M * 2 ^ j - (of_int n :: rat) = (of_int M - q) * 2 ^ j"
    by (simp add: q_def field_simps)
  then have "\<bar>of_int M * 2 ^ j - (of_int n :: rat)\<bar> = \<bar>of_int M - q\<bar> * 2 ^ j"
    by (simp only: abs_mult) simp
  also have "\<dots> \<le> 1 / 2 * 2 ^ j"
    using near by (intro mult_right_mono) simp_all
  finally have dist: "\<bar>of_int M * 2 ^ j - (of_int n :: rat)\<bar> \<le> 2 ^ j / 2"
    by simp
  have "(of_int ((2::int) ^ 23) :: rat) * 2 ^ j \<le> of_int M * 2 ^ j"
    using M_lo by (intro mult_right_mono) (simp_all only: of_int_le_iff, simp)
  then have lo': "(2::rat) ^ (23 + j) \<le> of_int M * 2 ^ j"
    by (simp add: power_add)
  from lo lo' dec dist show ?thesis
    unfolding F_def by metis
qed

lemma grid_step:
  fixes K M :: int
  assumes "of_int K * (2::rat) ^ j < of_int M * 2 ^ j"
  shows "of_int K * (2::rat) ^ j + 2 ^ j \<le> of_int M * 2 ^ j"
proof -
  have "(of_int K :: rat) < of_int M"
    using assms by (simp add: mult_less_cancel_right)
  then have "K + 1 \<le> M"
    by simp
  then have "(of_int (K + 1) :: rat) \<le> of_int M"
    by (simp only: of_int_le_iff)
  then have "of_int (K + 1) * (2::rat) ^ j \<le> of_int M * 2 ^ j"
    by (intro mult_right_mono) simp_all
  then show ?thesis
    by (simp add: algebra_simps)
qed

text \<open>
  The test \<^verbatim>\<open>ns > (float)cycles\<close> in terms of the cycle count itself: it holds exactly
  when \<open>ns\<close> exceeds the cycle count and is not the converted cycle count.
\<close>

lemma f_gt_u32_to_float:
  "f_gt ns (u32_to_float c)
     \<longleftrightarrow> \<not> is_nan ns \<and> of_nat (unat c) < f_val ns \<and> f_val ns \<noteq> f_val (u32_to_float c)"
proof (cases "unat c < 2 ^ 24")
  case True
  then show ?thesis
    by (auto simp: f_lt_def u32_to_float_exact)
next
  case False
  define n where "n = uint c"
  have nn: "of_nat (unat c) = (of_int n :: rat)"
    by (simp only: n_def uint_nat of_int_of_nat_eq)
  have "\<not> int (unat c) < 2 ^ 24"
    using False by (simp only: of_nat_less_numeral_power_cancel_iff) simp
  then have n_lo: "2 ^ 24 \<le> n"
    by (simp add: n_def)
  have n_hi: "n < 2 ^ 32"
    using uint_bounded [of c] by (simp add: n_def)
  define F where "F = u32_to_float c"
  have conv: "F = f_round_mag (of_int n)"
    by (simp add: F_def u32_to_float_def n_def)
  from f_round_mag_big_int [OF n_lo n_hi]
  obtain j M where lo: "2 ^ (23 + j) \<le> (of_int n :: rat)"
    and loF: "2 ^ (23 + j) \<le> f_val F"
    and nan: "\<not> is_nan F"
    and val: "f_val F = of_int M * 2 ^ j"
    and dist: "\<bar>f_val F - of_int n\<bar> \<le> 2 ^ j / 2"
    unfolding conv by blast
  have half: "(2::rat) ^ j / 2 < 2 ^ j"
    by simp
  have up: "of_int n < f_val ns" if "f_val F < f_val ns"
  proof -
    from that loF have "2 ^ (23 + j) \<le> f_val ns"
      by linarith
    then obtain K :: int where K: "f_val ns = of_int K * 2 ^ j"
      using f_val_grid by blast
    from that have "of_int M * (2::rat) ^ j + 2 ^ j \<le> of_int K * 2 ^ j"
      unfolding val K by (rule grid_step)
    with dist half show ?thesis
      unfolding val K by linarith
  qed
  have down: "f_val F < f_val ns" if "of_int n < f_val ns" "f_val ns \<noteq> f_val F"
  proof (rule ccontr)
    assume "\<not> f_val F < f_val ns"
    with that(2) have lt: "f_val ns < f_val F"
      by linarith
    from that(1) lo have "2 ^ (23 + j) \<le> f_val ns"
      by linarith
    then obtain K :: int where K: "f_val ns = of_int K * 2 ^ j"
      using f_val_grid by blast
    from lt have "of_int K * (2::rat) ^ j + 2 ^ j \<le> of_int M * 2 ^ j"
      unfolding val K by (rule grid_step)
    with dist half that(1) show False
      unfolding val K by linarith
  qed
  show ?thesis
    unfolding nn using up down nan by (auto simp: f_lt_def simp flip: F_def)
qed

section \<open>The copy loop\<close>

lemma store_Some: "0 \<le> i \<Longrightarrow> i < int (length arr) \<Longrightarrow> store arr i v = Some (arr[nat i := v])"
  by (simp add: store_def)

lemma copy_cores_from:
  "0 \<le> i \<Longrightarrow> n \<le> int (length arr) \<Longrightarrow>
   copy_cores t start n i arr =
     Some (map (\<lambda>k. if i \<le> int k \<and> int k < n then t (start + int k) else arr ! k) [0..<length arr])"
proof (induction t start n i arr rule: copy_cores.induct)
  case (1 t start n i arr)
  show ?case
  proof (cases "i < n")
    case False
    then have "map (\<lambda>k. if i \<le> int k \<and> int k < n then t (start + int k) else arr ! k) [0..<length arr] = arr"
      by (intro nth_equalityI) auto
    with False show ?thesis
      by (subst copy_cores.simps) simp
  next
    case True
    let ?arr' = "arr[nat i := t (start + i)]"
    have st: "store arr i (t (start + i)) = Some ?arr'"
      using "1.prems" True by (intro store_Some) auto
    have "copy_cores t start n (i + 1) ?arr' =
        Some (map (\<lambda>k. if i + 1 \<le> int k \<and> int k < n then t (start + int k) else ?arr' ! k) [0..<length ?arr'])"
      using "1.prems" True st by (intro "1.IH") auto
    moreover have "map (\<lambda>k. if i + 1 \<le> int k \<and> int k < n then t (start + int k) else ?arr' ! k) [0..<length ?arr']
        = map (\<lambda>k. if i \<le> int k \<and> int k < n then t (start + int k) else arr ! k) [0..<length arr]"
    proof (rule nth_equalityI)
      fix k
      assume "k < length (map (\<lambda>k. if i + 1 \<le> int k \<and> int k < n then t (start + int k) else ?arr' ! k) [0..<length ?arr'])"
      then have k: "k < length arr" by simp
      show "map (\<lambda>k. if i + 1 \<le> int k \<and> int k < n then t (start + int k) else ?arr' ! k) [0..<length ?arr'] ! k
          = map (\<lambda>k. if i \<le> int k \<and> int k < n then t (start + int k) else arr ! k) [0..<length arr] ! k"
      proof (cases "k = nat i")
        case True
        with k "1.prems" \<open>i < n\<close> show ?thesis by simp
      next
        case False
        with k "1.prems" have "int k \<noteq> i" by auto
        with k False show ?thesis by (auto simp: nth_list_update)
      qed
    qed simp
    ultimately show ?thesis
      using True st by (subst copy_cores.simps) simp
  qed
qed

lemma copy_cores_fill:
  "n \<le> int (length arr) \<Longrightarrow> copy_cores t start n 0 arr = Some (fill t start n arr)"
  by (simp add: copy_cores_from fill_def)

lemma length_fill [simp]: "length (fill t start n arr) = length arr"
  by (simp add: fill_def)

lemma nth_fill: "k < length arr \<Longrightarrow> fill t start n arr ! k = (if int k < n then t (start + int k) else arr ! k)"
  by (simp add: fill_def)

section \<open>What each step of the decoder leaves unchanged\<close>

lemma apply_named_entry_frame [simp]:
  "core_temps_c (apply_named_entry t count m e) = core_temps_c m"
  "core_temps_count (apply_named_entry t count m e) = core_temps_count m"
  "core_clocks_ghz (apply_named_entry t count m e) = core_clocks_ghz m"
  "core_clocks_count (apply_named_entry t count m e) = core_clocks_count m"
  "core_voltages (apply_named_entry t count m e) = core_voltages m"
  "core_voltages_count (apply_named_entry t count m e) = core_voltages_count m"
  "core_usage_pct (apply_named_entry t count m e) = core_usage_pct m"
  "core_usage_count (apply_named_entry t count m e) = core_usage_count m"
  "vid (apply_named_entry t count m e) = vid m"
  "core_clock_mhz (apply_named_entry t count m e) = core_clock_mhz m"
  by (simp_all add: apply_named_entry_def Let_def split: pm_field.split)

lemma read_granite_ridge_offsets_frame [simp]:
  "core_temps_c (read_granite_ridge_offsets t count m) = core_temps_c m"
  "core_temps_count (read_granite_ridge_offsets t count m) = core_temps_count m"
  "core_clocks_ghz (read_granite_ridge_offsets t count m) = core_clocks_ghz m"
  "core_clocks_count (read_granite_ridge_offsets t count m) = core_clocks_count m"
  "core_voltages (read_granite_ridge_offsets t count m) = core_voltages m"
  "core_voltages_count (read_granite_ridge_offsets t count m) = core_voltages_count m"
  "core_usage_pct (read_granite_ridge_offsets t count m) = core_usage_pct m"
  "core_usage_count (read_granite_ridge_offsets t count m) = core_usage_count m"
  "vid (read_granite_ridge_offsets t count m) = vid m"
  "core_clock_mhz (read_granite_ridge_offsets t count m) = core_clock_mhz m"
  "has_iod_hotspot (read_granite_ridge_offsets t count m) = has_iod_hotspot m"
  "iod_hotspot_c (read_granite_ridge_offsets t count m) = iod_hotspot_c m"
  by (simp_all add: read_granite_ridge_offsets_def)

lemma known_ppt_frame [simp]:
  "core_temps_c (known_ppt t count m) = core_temps_c m"
  "core_temps_count (known_ppt t count m) = core_temps_count m"
  "core_clocks_ghz (known_ppt t count m) = core_clocks_ghz m"
  "core_clocks_count (known_ppt t count m) = core_clocks_count m"
  "core_voltages (known_ppt t count m) = core_voltages m"
  "core_voltages_count (known_ppt t count m) = core_voltages_count m"
  "core_usage_pct (known_ppt t count m) = core_usage_pct m"
  "core_usage_count (known_ppt t count m) = core_usage_count m"
  "vid (known_ppt t count m) = vid m"
  "core_clock_mhz (known_ppt t count m) = core_clock_mhz m"
  "has_iod_hotspot (known_ppt t count m) = has_iod_hotspot m"
  "iod_hotspot_c (known_ppt t count m) = iod_hotspot_c m"
  by (simp_all add: known_ppt_def split: option.split)

lemma known_tdie_frame [simp]:
  "core_temps_c (known_tdie t count m) = core_temps_c m"
  "core_temps_count (known_tdie t count m) = core_temps_count m"
  "core_clocks_ghz (known_tdie t count m) = core_clocks_ghz m"
  "core_clocks_count (known_tdie t count m) = core_clocks_count m"
  "core_voltages (known_tdie t count m) = core_voltages m"
  "core_voltages_count (known_tdie t count m) = core_voltages_count m"
  "core_usage_pct (known_tdie t count m) = core_usage_pct m"
  "core_usage_count (known_tdie t count m) = core_usage_count m"
  "vid (known_tdie t count m) = vid m"
  "core_clock_mhz (known_tdie t count m) = core_clock_mhz m"
  "has_iod_hotspot (known_tdie t count m) = has_iod_hotspot m"
  "iod_hotspot_c (known_tdie t count m) = iod_hotspot_c m"
  by (simp_all add: known_tdie_def Let_def)

lemma known_vid_frame [simp]:
  "core_temps_c (known_vid t count m) = core_temps_c m"
  "core_temps_count (known_vid t count m) = core_temps_count m"
  "core_clocks_ghz (known_vid t count m) = core_clocks_ghz m"
  "core_clocks_count (known_vid t count m) = core_clocks_count m"
  "core_voltages (known_vid t count m) = core_voltages m"
  "core_voltages_count (known_vid t count m) = core_voltages_count m"
  "core_usage_pct (known_vid t count m) = core_usage_pct m"
  "core_usage_count (known_vid t count m) = core_usage_count m"
  "core_clock_mhz (known_vid t count m) = core_clock_mhz m"
  "has_iod_hotspot (known_vid t count m) = has_iod_hotspot m"
  "iod_hotspot_c (known_vid t count m) = iod_hotspot_c m"
  by (simp_all add: known_vid_def)

lemma known_iod_hotspot_frame [simp]:
  "core_temps_c (known_iod_hotspot t count m) = core_temps_c m"
  "core_temps_count (known_iod_hotspot t count m) = core_temps_count m"
  "core_clocks_ghz (known_iod_hotspot t count m) = core_clocks_ghz m"
  "core_clocks_count (known_iod_hotspot t count m) = core_clocks_count m"
  "core_voltages (known_iod_hotspot t count m) = core_voltages m"
  "core_voltages_count (known_iod_hotspot t count m) = core_voltages_count m"
  "core_usage_pct (known_iod_hotspot t count m) = core_usage_pct m"
  "core_usage_count (known_iod_hotspot t count m) = core_usage_count m"
  "vid (known_iod_hotspot t count m) = vid m"
  "core_clock_mhz (known_iod_hotspot t count m) = core_clock_mhz m"
  by (simp_all add: known_iod_hotspot_def Let_def)

lemma derive_core_clock_frame [simp]:
  "core_temps_c (derive_core_clock m) = core_temps_c m"
  "core_temps_count (derive_core_clock m) = core_temps_count m"
  "core_clocks_ghz (derive_core_clock m) = core_clocks_ghz m"
  "core_clocks_count (derive_core_clock m) = core_clocks_count m"
  "core_voltages (derive_core_clock m) = core_voltages m"
  "core_voltages_count (derive_core_clock m) = core_voltages_count m"
  "core_usage_pct (derive_core_clock m) = core_usage_pct m"
  "core_usage_count (derive_core_clock m) = core_usage_count m"
  "vid (derive_core_clock m) = vid m"
  "has_iod_hotspot (derive_core_clock m) = has_iod_hotspot m"
  "iod_hotspot_c (derive_core_clock m) = iod_hotspot_c m"
  by (simp_all add: derive_core_clock_def Let_def)

lemma derive_cpu_temp_frame [simp]:
  "core_temps_c (derive_cpu_temp t count m) = core_temps_c m"
  "core_temps_count (derive_cpu_temp t count m) = core_temps_count m"
  "core_clocks_ghz (derive_cpu_temp t count m) = core_clocks_ghz m"
  "core_clocks_count (derive_cpu_temp t count m) = core_clocks_count m"
  "core_voltages (derive_cpu_temp t count m) = core_voltages m"
  "core_voltages_count (derive_cpu_temp t count m) = core_voltages_count m"
  "core_usage_pct (derive_cpu_temp t count m) = core_usage_pct m"
  "core_usage_count (derive_cpu_temp t count m) = core_usage_count m"
  "vid (derive_cpu_temp t count m) = vid m"
  "core_clock_mhz (derive_cpu_temp t count m) = core_clock_mhz m"
  "has_iod_hotspot (derive_cpu_temp t count m) = has_iod_hotspot m"
  "iod_hotspot_c (derive_cpu_temp t count m) = iod_hotspot_c m"
  by (simp_all add: derive_cpu_temp_def)

lemma family_scalars_frame [simp]:
  "core_temps_c (family_scalars fm t count m) = core_temps_c m"
  "core_temps_count (family_scalars fm t count m) = core_temps_count m"
  "core_clocks_ghz (family_scalars fm t count m) = core_clocks_ghz m"
  "core_clocks_count (family_scalars fm t count m) = core_clocks_count m"
  "core_voltages (family_scalars fm t count m) = core_voltages m"
  "core_voltages_count (family_scalars fm t count m) = core_voltages_count m"
  "core_usage_pct (family_scalars fm t count m) = core_usage_pct m"
  "core_usage_count (family_scalars fm t count m) = core_usage_count m"
  "core_clock_mhz (family_scalars fm t count m) = core_clock_mhz m"
  "has_iod_hotspot (family_scalars fm t count m) = has_iod_hotspot m"
  "iod_hotspot_c (family_scalars fm t count m) = iod_hotspot_c m"
  by (simp_all add: family_scalars_def Let_def)

lemma foldl_frame:
  assumes "\<And>m e. sel (step m e) = sel m"
  shows "sel (foldl step m es) = sel m"
  using assms by (induction es arbitrary: m) simp_all

lemma apply_named_frame [simp]:
  "core_temps_c (apply_named fm t count m) = core_temps_c m"
  "core_temps_count (apply_named fm t count m) = core_temps_count m"
  "core_clocks_ghz (apply_named fm t count m) = core_clocks_ghz m"
  "core_clocks_count (apply_named fm t count m) = core_clocks_count m"
  "core_voltages (apply_named fm t count m) = core_voltages m"
  "core_voltages_count (apply_named fm t count m) = core_voltages_count m"
  "core_usage_pct (apply_named fm t count m) = core_usage_pct m"
  "core_usage_count (apply_named fm t count m) = core_usage_count m"
  "vid (apply_named fm t count m) = vid m"
  "core_clock_mhz (apply_named fm t count m) = core_clock_mhz m"
  unfolding apply_named_def by (rule foldl_frame, simp)+

section \<open>The fixed-index pass\<close>

lemma known_core_temps_eq:
  "length (core_temps_c m) = 16 \<Longrightarrow>
   known_core_temps t count m =
     Some (if count > 324 then m\<lparr>core_temps_count := 8, core_temps_c := fill t 317 8 (core_temps_c m)\<rparr> else m)"
  by (simp add: known_core_temps_def copy_cores_fill)

lemma known_core_clocks_eq:
  "length (core_clocks_ghz m) = 16 \<Longrightarrow>
   known_core_clocks t count m =
     Some (if count > 340 then m\<lparr>core_clocks_count := 16, core_clocks_ghz := fill t 325 16 (core_clocks_ghz m)\<rparr> else m)"
  by (simp add: known_core_clocks_def copy_cores_fill)

lemma known_core_voltages_eq:
  "length (core_voltages m) = 16 \<Longrightarrow>
   known_core_voltages t count m =
     Some (if count > 316 then m\<lparr>core_voltages_count := 8, core_voltages := fill t 309 8 (core_voltages m)\<rparr> else m)"
  by (simp add: known_core_voltages_def copy_cores_fill)

lemma family_core_temps_eq:
  "length (core_temps_c m) = 16 \<Longrightarrow> nc \<le> 16 \<Longrightarrow>
   family_core_temps fm nc t count m =
     Some (if core_temp_start fm + nc \<le> count
           then m\<lparr>core_temps_count := nc, core_temps_c := fill t (core_temp_start fm) nc (core_temps_c m)\<rparr>
           else m)"
  by (simp add: family_core_temps_def copy_cores_fill)

lemma family_core_voltages_eq:
  "length (core_voltages m) = 16 \<Longrightarrow> nc \<le> 16 \<Longrightarrow>
   family_core_voltages fm nc t count m =
     Some (if core_voltage_start fm + nc \<le> count
           then m\<lparr>core_voltages_count := nc, core_voltages := fill t (core_voltage_start fm) nc (core_voltages m)\<rparr>
           else m)"
  by (simp add: family_core_voltages_def copy_cores_fill)

lemma known_vid_vid [simp]: "vid (known_vid t count m) = (if count > 275 then t 275 else vid m)"
  by (simp add: known_vid_def)

lemma known_iod_hotspot_flag [simp]:
  "has_iod_hotspot (known_iod_hotspot t count m) =
     (has_iod_hotspot m \<or> (count > 11 \<and> f_within (t 11) f_1 f_150))"
  by (auto simp: known_iod_hotspot_def Let_def)

lemma known_iod_hotspot_value [simp]:
  "iod_hotspot_c (known_iod_hotspot t count m) =
     (if count > 11 \<and> f_within (t 11) f_1 f_150 then t 11 else iod_hotspot_c m)"
  by (simp add: known_iod_hotspot_def Let_def)

lemma read_known_indices_post:
  assumes "length (core_temps_c m) = 16" "length (core_clocks_ghz m) = 16"
    "length (core_voltages m) = 16"
  shows "\<exists>m'. read_known_indices t count m = Some m'
    \<and> core_temps_c m' = (if count > 324 then fill t 317 8 (core_temps_c m) else core_temps_c m)
    \<and> core_temps_count m' = (if count > 324 then 8 else core_temps_count m)
    \<and> core_clocks_ghz m' = (if count > 340 then fill t 325 16 (core_clocks_ghz m) else core_clocks_ghz m)
    \<and> core_clocks_count m' = (if count > 340 then 16 else core_clocks_count m)
    \<and> core_voltages m' = (if count > 316 then fill t 309 8 (core_voltages m) else core_voltages m)
    \<and> core_voltages_count m' = (if count > 316 then 8 else core_voltages_count m)
    \<and> core_usage_pct m' = core_usage_pct m
    \<and> core_usage_count m' = core_usage_count m
    \<and> vid m' = (if count > 275 then t 275 else vid m)
    \<and> core_clock_mhz m' = core_clock_mhz m
    \<and> has_iod_hotspot m' = (has_iod_hotspot m \<or> (count > 11 \<and> f_within (t 11) f_1 f_150))
    \<and> iod_hotspot_c m' = (if count > 11 \<and> f_within (t 11) f_1 f_150 then t 11 else iod_hotspot_c m)"
  using assms
  by (simp add: read_known_indices_def known_core_temps_eq known_core_clocks_eq known_core_voltages_eq)

section \<open>The generic branch\<close>

lemma apply_named_entry_flag:
  "has_iod_hotspot (apply_named_entry t count m e) =
     (has_iod_hotspot m \<or>
      (field_offset e = F_IOD_HOTSPOT \<and> f_within (safe_get t count (index e)) f_1 f_150))"
  by (auto simp: apply_named_entry_def Let_def split: pm_field.split)

lemma apply_named_entry_hotspot_from:
  "hotspot_from vs m \<Longrightarrow>
   hotspot_from (vs @ (if field_offset e = F_IOD_HOTSPOT then [safe_get t count (index e)] else []))
     (apply_named_entry t count m e)"
  by (auto simp: hotspot_from_def apply_named_entry_def Let_def split: pm_field.split)

lemma foldl_apply_named_entry_flag:
  "has_iod_hotspot (foldl (apply_named_entry t count) m es) =
     (has_iod_hotspot m \<or>
      (\<exists>e\<in>set es. field_offset e = F_IOD_HOTSPOT \<and> f_within (safe_get t count (index e)) f_1 f_150))"
  by (induction es arbitrary: m) (auto simp: apply_named_entry_flag)

lemma foldl_apply_named_entry_hotspot_from:
  "hotspot_from vs m \<Longrightarrow>
   hotspot_from
     (vs @ map (\<lambda>e. safe_get t count (index e)) (filter (\<lambda>e. field_offset e = F_IOD_HOTSPOT) es))
     (foldl (apply_named_entry t count) m es)"
proof (induction es arbitrary: vs m)
  case Nil
  then show ?case by simp
next
  case (Cons e es)
  from apply_named_entry_hotspot_from [OF Cons.prems, of e t count]
  have "hotspot_from
     ((vs @ (if field_offset e = F_IOD_HOTSPOT then [safe_get t count (index e)] else []))
      @ map (\<lambda>e. safe_get t count (index e)) (filter (\<lambda>e. field_offset e = F_IOD_HOTSPOT) es))
     (foldl (apply_named_entry t count) (apply_named_entry t count m e) es)"
    by (rule Cons.IH)
  then show ?case by (cases "field_offset e = F_IOD_HOTSPOT") simp_all
qed

lemma apply_named_flag:
  "has_iod_hotspot (apply_named fm t count m) =
     (has_iod_hotspot m \<or> (\<exists>v\<in>set (named_hotspot_values fm t count). f_within v f_1 f_150))"
  by (auto simp: apply_named_def named_hotspot_values_def foldl_apply_named_entry_flag)

lemma apply_named_hotspot_from:
  "hotspot_from vs m \<Longrightarrow> hotspot_from (vs @ named_hotspot_values fm t count) (apply_named fm t count m)"
  by (simp add: apply_named_def named_hotspot_values_def foldl_apply_named_entry_hotspot_from)

lemma family_scalars_vid [simp]:
  "vid (family_scalars fm t count m) =
     (if f_gt (safe_get t count (vid_idx fm)) 0 then safe_get t count (vid_idx fm) else vid m)"
  by (simp add: family_scalars_def Let_def)

lemma derive_core_clock_value:
  "core_clock_mhz (derive_core_clock m) =
     (if core_clocks_count m > 0 \<and> f_within (max_core_clock m) f_0_5 f_6_5
      then f_mul (max_core_clock m) f_1000 else core_clock_mhz m)"
  by (simp add: derive_core_clock_def Let_def)

lemma pm_table_generic_post:
  assumes "length (core_temps_c m) = 16" "length (core_clocks_ghz m) = 16"
    "length (core_voltages m) = 16"
  shows "\<exists>out. pm_table_generic fm t count m = Some out
    \<and> core_temps_c out =
        (if count > 324
         then fill t 317 8 (if core_temp_start fm + clamp_cores fm \<le> count
                            then fill t (core_temp_start fm) (clamp_cores fm) (core_temps_c m)
                            else core_temps_c m)
         else if core_temp_start fm + clamp_cores fm \<le> count
              then fill t (core_temp_start fm) (clamp_cores fm) (core_temps_c m)
              else core_temps_c m)
    \<and> core_temps_count out =
        (if count > 324 then 8
         else if core_temp_start fm + clamp_cores fm \<le> count then clamp_cores fm
         else core_temps_count m)
    \<and> core_voltages out =
        (if count > 316
         then fill t 309 8 (if core_voltage_start fm + clamp_cores fm \<le> count
                            then fill t (core_voltage_start fm) (clamp_cores fm) (core_voltages m)
                            else core_voltages m)
         else if core_voltage_start fm + clamp_cores fm \<le> count
              then fill t (core_voltage_start fm) (clamp_cores fm) (core_voltages m)
              else core_voltages m)
    \<and> core_voltages_count out =
        (if count > 316 then 8
         else if core_voltage_start fm + clamp_cores fm \<le> count then clamp_cores fm
         else core_voltages_count m)
    \<and> core_clocks_ghz out = (if count > 340 then fill t 325 16 (core_clocks_ghz m) else core_clocks_ghz m)
    \<and> core_clocks_count out = (if count > 340 then 16 else core_clocks_count m)
    \<and> core_usage_pct out = core_usage_pct m
    \<and> core_usage_count out = core_usage_count m
    \<and> vid out =
        (if count > 275 then t 275
         else if f_gt (safe_get t count (vid_idx fm)) 0 then safe_get t count (vid_idx fm)
         else vid m)
    \<and> core_clock_mhz out = core_clock_mhz m
    \<and> has_iod_hotspot out =
        (has_iod_hotspot m \<or> (\<exists>v\<in>set (named_hotspot_values fm t count). f_within v f_1 f_150)
         \<or> (count > 11 \<and> f_within (t 11) f_1 f_150))
    \<and> (hotspot_from vs m \<longrightarrow>
         hotspot_from (vs @ named_hotspot_values fm t count @ (if count > 11 then [t 11] else [])) out)"
proof -
  let ?nc = "if max_cores fm > int MAX_CORES then int MAX_CORES else max_cores fm"
  have nc: "?nc = clamp_cores fm" "?nc \<le> 16"
    by (auto simp: clamp_cores_def MAX_CORES_def)
  let ?m1 = "apply_named fm t count m"
  let ?m2 = "if core_temp_start fm + ?nc \<le> count
             then ?m1\<lparr>core_temps_count := ?nc, core_temps_c := fill t (core_temp_start fm) ?nc (core_temps_c ?m1)\<rparr>
             else ?m1"
  let ?m3 = "if core_voltage_start fm + ?nc \<le> count
             then ?m2\<lparr>core_voltages_count := ?nc, core_voltages := fill t (core_voltage_start fm) ?nc (core_voltages ?m2)\<rparr>
             else ?m2"
  let ?m4 = "family_scalars fm t count ?m3"
  have s1: "family_core_temps fm ?nc t count ?m1 = Some ?m2"
    using assms nc(2) by (subst family_core_temps_eq) simp_all
  have s2: "family_core_voltages fm ?nc t count ?m2 = Some ?m3"
    using assms nc(2) by (subst family_core_voltages_eq) simp_all
  have gen: "pm_table_generic fm t count m = read_known_indices t count ?m4"
    unfolding pm_table_generic_def Let_def s1 by (simp add: s2 del: family_scalars_frame)
  have len4: "length (core_temps_c ?m4) = 16" "length (core_clocks_ghz ?m4) = 16"
      "length (core_voltages ?m4) = 16"
    using assms by simp_all
  from read_known_indices_post [OF len4, of t count]
  obtain out where out: "read_known_indices t count ?m4 = Some out"
    and f: "core_temps_c out = (if count > 324 then fill t 317 8 (core_temps_c ?m4) else core_temps_c ?m4)"
       "core_temps_count out = (if count > 324 then 8 else core_temps_count ?m4)"
       "core_clocks_ghz out = (if count > 340 then fill t 325 16 (core_clocks_ghz ?m4) else core_clocks_ghz ?m4)"
       "core_clocks_count out = (if count > 340 then 16 else core_clocks_count ?m4)"
       "core_voltages out = (if count > 316 then fill t 309 8 (core_voltages ?m4) else core_voltages ?m4)"
       "core_voltages_count out = (if count > 316 then 8 else core_voltages_count ?m4)"
       "core_usage_pct out = core_usage_pct ?m4"
       "core_usage_count out = core_usage_count ?m4"
       "vid out = (if count > 275 then t 275 else vid ?m4)"
       "core_clock_mhz out = core_clock_mhz ?m4"
       "has_iod_hotspot out = (has_iod_hotspot ?m4 \<or> (count > 11 \<and> f_within (t 11) f_1 f_150))"
       "iod_hotspot_c out = (if count > 11 \<and> f_within (t 11) f_1 f_150 then t 11 else iod_hotspot_c ?m4)"
    by blast
  have h4: "has_iod_hotspot ?m4 = has_iod_hotspot ?m1" "iod_hotspot_c ?m4 = iod_hotspot_c ?m1"
    by simp_all
  have ok: "hotspot_from vs m \<longrightarrow>
         hotspot_from (vs @ named_hotspot_values fm t count @ (if count > 11 then [t 11] else [])) out"
  proof
    assume "hotspot_from vs m"
    then have "hotspot_from (vs @ named_hotspot_values fm t count) ?m1"
      by (rule apply_named_hotspot_from)
    then show "hotspot_from (vs @ named_hotspot_values fm t count @ (if count > 11 then [t 11] else [])) out"
      unfolding hotspot_from_def f(11,12) h4 by auto
  qed
  show ?thesis
  proof (intro exI conjI)
    show "pm_table_generic fm t count m = Some out" by (simp only: gen out)
    show "hotspot_from vs m \<longrightarrow>
         hotspot_from (vs @ named_hotspot_values fm t count @ (if count > 11 then [t 11] else [])) out"
      by (rule ok)
  qed (simp_all add: f h4 nc(1) [symmetric] apply_named_flag)
qed

lemma pm_table_generic_last_pass:
  assumes "length (core_temps_c m) = 16" "length (core_clocks_ghz m) = 16"
    "length (core_voltages m) = 16"
  shows "\<exists>m'. pm_table_generic fm t count m = read_known_indices t count m'"
proof -
  let ?nc = "if max_cores fm > int MAX_CORES then int MAX_CORES else max_cores fm"
  have nc: "?nc \<le> 16"
    by (auto simp: MAX_CORES_def)
  let ?m1 = "apply_named fm t count m"
  let ?m2 = "if core_temp_start fm + ?nc \<le> count
             then ?m1\<lparr>core_temps_count := ?nc, core_temps_c := fill t (core_temp_start fm) ?nc (core_temps_c ?m1)\<rparr>
             else ?m1"
  let ?m3 = "if core_voltage_start fm + ?nc \<le> count
             then ?m2\<lparr>core_voltages_count := ?nc, core_voltages := fill t (core_voltage_start fm) ?nc (core_voltages ?m2)\<rparr>
             else ?m2"
  have s1: "family_core_temps fm ?nc t count ?m1 = Some ?m2"
    using assms nc by (subst family_core_temps_eq) simp_all
  have s2: "family_core_voltages fm ?nc t count ?m2 = Some ?m3"
    using assms nc by (subst family_core_voltages_eq) simp_all
  have "pm_table_generic fm t count m = read_known_indices t count (family_scalars fm t count ?m3)"
    unfolding pm_table_generic_def Let_def s1 by (simp add: s2 del: family_scalars_frame)
  then show ?thesis ..
qed

section \<open>The branch for codename index 23\<close>

lemma running_max:
  "\<not> is_nan mx \<Longrightarrow>
   \<not> is_nan (foldl (\<lambda>max_ghz c. if f_gt c max_ghz then c else max_ghz) mx cs)
   \<and> (foldl (\<lambda>max_ghz c. if f_gt c max_ghz then c else max_ghz) mx cs = mx
       \<or> foldl (\<lambda>max_ghz c. if f_gt c max_ghz then c else max_ghz) mx cs \<in> set cs)
   \<and> f_val mx \<le> f_val (foldl (\<lambda>max_ghz c. if f_gt c max_ghz then c else max_ghz) mx cs)
   \<and> (\<forall>c\<in>set cs. \<not> is_nan c \<longrightarrow>
         f_val c \<le> f_val (foldl (\<lambda>max_ghz c. if f_gt c max_ghz then c else max_ghz) mx cs))"
proof (induction cs arbitrary: mx)
  case Nil
  then show ?case by simp
next
  case (Cons c cs)
  let ?step = "\<lambda>max_ghz c. if f_gt c max_ghz then c else max_ghz"
  show ?case
  proof (cases "f_gt c mx")
    case True
    then have c: "\<not> is_nan c" "f_val mx < f_val c"
      by (simp_all add: f_lt_def)
    from Cons.IH [OF c(1)] True c(2) show ?thesis
      by auto
  next
    case False
    then have le: "\<not> is_nan c \<longrightarrow> f_val c \<le> f_val mx"
      using Cons.prems by (auto simp: f_lt_def)
    from Cons.IH [OF Cons.prems] False le show ?thesis
      by auto
  qed
qed

lemma max_core_clock_is_max:
  "\<not> is_nan (max_core_clock m)
   \<and> (max_core_clock m = 0 \<or> max_core_clock m \<in> set (take (nat (core_clocks_count m)) (core_clocks_ghz m)))
   \<and> 0 \<le> f_val (max_core_clock m)
   \<and> (\<forall>c\<in>set (take (nat (core_clocks_count m)) (core_clocks_ghz m)).
         \<not> is_nan c \<longrightarrow> f_val c \<le> f_val (max_core_clock m))"
  unfolding max_core_clock_def
  using running_max [of 0 "take (nat (core_clocks_count m)) (core_clocks_ghz m)"]
  by simp

lemma max_core_clock_cong:
  "core_clocks_count a = core_clocks_count b \<Longrightarrow> core_clocks_ghz a = core_clocks_ghz b \<Longrightarrow>
   max_core_clock a = max_core_clock b"
  by (simp add: max_core_clock_def)

lemma pm_table_granite_post:
  assumes "length (core_temps_c m) = 16" "length (core_clocks_ghz m) = 16"
    "length (core_voltages m) = 16"
  shows "\<exists>out. pm_table_granite t count m = Some out
    \<and> core_temps_c out = (if count > 324 then fill t 317 8 (core_temps_c m) else core_temps_c m)
    \<and> core_temps_count out = (if count > 324 then 8 else core_temps_count m)
    \<and> core_clocks_ghz out = (if count > 340 then fill t 325 16 (core_clocks_ghz m) else core_clocks_ghz m)
    \<and> core_clocks_count out = (if count > 340 then 16 else core_clocks_count m)
    \<and> core_voltages out = (if count > 316 then fill t 309 8 (core_voltages m) else core_voltages m)
    \<and> core_voltages_count out = (if count > 316 then 8 else core_voltages_count m)
    \<and> core_usage_pct out = core_usage_pct m
    \<and> core_usage_count out = core_usage_count m
    \<and> vid out = (if count > 275 then t 275 else vid m)
    \<and> core_clock_mhz out =
        (if core_clocks_count out > 0 \<and> f_within (max_core_clock out) f_0_5 f_6_5
         then f_mul (max_core_clock out) f_1000 else core_clock_mhz m)
    \<and> has_iod_hotspot out = (has_iod_hotspot m \<or> (count > 11 \<and> f_within (t 11) f_1 f_150))
    \<and> (hotspot_from vs m \<longrightarrow> hotspot_from (vs @ (if count > 11 then [t 11] else [])) out)"
proof -
  let ?m0 = "read_granite_ridge_offsets t count m"
  have len0: "length (core_temps_c ?m0) = 16" "length (core_clocks_ghz ?m0) = 16"
      "length (core_voltages ?m0) = 16"
    using assms by simp_all
  from read_known_indices_post [OF len0, of t count]
  obtain m' where m': "read_known_indices t count ?m0 = Some m'"
    and f: "core_temps_c m' = (if count > 324 then fill t 317 8 (core_temps_c ?m0) else core_temps_c ?m0)"
       "core_temps_count m' = (if count > 324 then 8 else core_temps_count ?m0)"
       "core_clocks_ghz m' = (if count > 340 then fill t 325 16 (core_clocks_ghz ?m0) else core_clocks_ghz ?m0)"
       "core_clocks_count m' = (if count > 340 then 16 else core_clocks_count ?m0)"
       "core_voltages m' = (if count > 316 then fill t 309 8 (core_voltages ?m0) else core_voltages ?m0)"
       "core_voltages_count m' = (if count > 316 then 8 else core_voltages_count ?m0)"
       "core_usage_pct m' = core_usage_pct ?m0"
       "core_usage_count m' = core_usage_count ?m0"
       "vid m' = (if count > 275 then t 275 else vid ?m0)"
       "core_clock_mhz m' = core_clock_mhz ?m0"
       "has_iod_hotspot m' = (has_iod_hotspot ?m0 \<or> (count > 11 \<and> f_within (t 11) f_1 f_150))"
       "iod_hotspot_c m' = (if count > 11 \<and> f_within (t 11) f_1 f_150 then t 11 else iod_hotspot_c ?m0)"
    by blast
  let ?m1 = "m'\<lparr>package_power_w := try_plausible_power t count,
                 package_current_a := try_plausible_current t count\<rparr>"
  let ?out = "derive_cpu_temp t count (derive_core_clock ?m1)"
  have out: "pm_table_granite t count m = Some ?out"
    by (simp add: pm_table_granite_def m')
  have mx: "max_core_clock ?out = max_core_clock ?m1"
    by (rule max_core_clock_cong) simp_all
  have ok: "hotspot_from vs m \<longrightarrow> hotspot_from (vs @ (if count > 11 then [t 11] else [])) ?out"
    by (auto simp: hotspot_from_def f)
  show ?thesis
  proof (intro exI conjI)
    show "pm_table_granite t count m = Some ?out" by (rule out)
    show "hotspot_from vs m \<longrightarrow> hotspot_from (vs @ (if count > 11 then [t 11] else [])) ?out"
      by (rule ok)
    show "core_clock_mhz ?out =
        (if core_clocks_count ?out > 0 \<and> f_within (max_core_clock ?out) f_0_5 f_6_5
         then f_mul (max_core_clock ?out) f_1000 else core_clock_mhz m)"
      unfolding mx by (simp add: derive_core_clock_value f)
  qed (simp_all add: f)
qed

section \<open>Lists of table elements\<close>

lemma zero_metrics_arrays [simp]:
  "core_temps_c zero_metrics = replicate 16 0"
  "core_clocks_ghz zero_metrics = replicate 16 0"
  "core_voltages zero_metrics = replicate 16 0"
  "core_usage_pct zero_metrics = replicate 16 0"
  "core_temps_count zero_metrics = 0"
  "core_clocks_count zero_metrics = 0"
  "core_voltages_count zero_metrics = 0"
  "core_usage_count zero_metrics = 0"
  "vid zero_metrics = 0"
  "core_clock_mhz zero_metrics = 0"
  "has_iod_hotspot zero_metrics = False"
  "iod_hotspot_c zero_metrics = 0"
  by (simp_all add: zero_metrics_def MAX_CORES_def)

lemma hotspot_from_zero: "hotspot_from [] zero_metrics"
  by (simp add: hotspot_from_def)

lemma take_fill:
  "n \<le> length arr \<Longrightarrow> take n (fill t start (int n) arr) = map (\<lambda>k. t (start + int k)) [0..<n]"
  by (intro nth_equalityI) (simp_all add: nth_fill)

lemma fill_all:
  "fill t start (int (length arr)) arr = map (\<lambda>k. t (start + int k)) [0..<length arr]"
  by (intro nth_equalityI) (simp_all add: nth_fill)

section \<open>Short tables and the fixed-index pass after the family pass\<close>

lemma zero_lengths:
  "length (core_temps_c zero_metrics) = 16" "length (core_clocks_ghz zero_metrics) = 16"
  "length (core_voltages zero_metrics) = 16"
  by simp_all

text \<open>
  C2.  When \<^verbatim>\<open>pm_table_read\<close> is called with a null table or with \<open>count < 4\<close>, the output
  is the zero record (every numeric field 0, every count 0, every flag false), whatever
  the version and the codename index.
\<close>

theorem pm_table_read_short_table:
  "table = None \<or> count < 4 \<Longrightarrow>
   pm_table_read version table count codename_index = Some zero_metrics"
  by (auto simp: pm_table_read_def split: option.split)

text \<open>
  C9.  For every codename index other than 23, \<^verbatim>\<open>pm_table_read\<close> ends with the fixed-index
  pass \<^verbatim>\<open>read_known_indices\<close>, after the family-map pass.  So whenever the table is long
  enough, the outputs are the table values at the fixed indices, whatever the family map
  put there before: with \<open>count > 324\<close> the core temperature count is 8 and the first 8
  temperatures are \<open>t[317..324]\<close>; with \<open>count > 316\<close> the core voltage count is 8 and the
  first 8 voltages are \<open>t[309..316]\<close>; with \<open>count > 275\<close> the VID is \<open>t[275]\<close>; with
  \<open>count > 340\<close> the core clock count is 16 and the clocks are \<open>t[325..340]\<close>.
\<close>

theorem granite_ridge_pass_overrides:
  assumes "codename_index \<noteq> 23"
  shows "\<exists>out. pm_table_read version (Some t) count codename_index = Some out
    \<and> (4 \<le> count \<longrightarrow> (\<exists>m. pm_table_read version (Some t) count codename_index = read_known_indices t count m))
    \<and> (count > 324 \<longrightarrow> core_temps_count out = 8 \<and> take 8 (core_temps_c out) = map t [317..324])
    \<and> (count > 316 \<longrightarrow> core_voltages_count out = 8 \<and> take 8 (core_voltages out) = map t [309..316])
    \<and> (count > 275 \<longrightarrow> vid out = t 275)
    \<and> (count > 340 \<longrightarrow> core_clocks_count out = 16 \<and> core_clocks_ghz out = map t [325..340])"
proof (cases "count < 4")
  case True
  then show ?thesis
    by (simp add: pm_table_read_def)
next
  case False
  let ?fm = "get_family_map version"
  have rd: "pm_table_read version (Some t) count codename_index = pm_table_generic ?fm t count zero_metrics"
    using assms False by (simp add: pm_table_read_def)
  from pm_table_generic_post [OF zero_lengths, of ?fm t count "[]"]
  obtain out where out: "pm_table_generic ?fm t count zero_metrics = Some out"
    and temps: "core_temps_c out =
        (if count > 324
         then fill t 317 8 (if core_temp_start ?fm + clamp_cores ?fm \<le> count
                            then fill t (core_temp_start ?fm) (clamp_cores ?fm) (core_temps_c zero_metrics)
                            else core_temps_c zero_metrics)
         else if core_temp_start ?fm + clamp_cores ?fm \<le> count
              then fill t (core_temp_start ?fm) (clamp_cores ?fm) (core_temps_c zero_metrics)
              else core_temps_c zero_metrics)"
    and temps_count: "core_temps_count out =
        (if count > 324 then 8
         else if core_temp_start ?fm + clamp_cores ?fm \<le> count then clamp_cores ?fm
         else core_temps_count zero_metrics)"
    and volts: "core_voltages out =
        (if count > 316
         then fill t 309 8 (if core_voltage_start ?fm + clamp_cores ?fm \<le> count
                            then fill t (core_voltage_start ?fm) (clamp_cores ?fm) (core_voltages zero_metrics)
                            else core_voltages zero_metrics)
         else if core_voltage_start ?fm + clamp_cores ?fm \<le> count
              then fill t (core_voltage_start ?fm) (clamp_cores ?fm) (core_voltages zero_metrics)
              else core_voltages zero_metrics)"
    and volts_count: "core_voltages_count out =
        (if count > 316 then 8
         else if core_voltage_start ?fm + clamp_cores ?fm \<le> count then clamp_cores ?fm
         else core_voltages_count zero_metrics)"
    and clocks: "core_clocks_ghz out =
        (if count > 340 then fill t 325 16 (core_clocks_ghz zero_metrics) else core_clocks_ghz zero_metrics)"
    and clocks_count: "core_clocks_count out = (if count > 340 then 16 else core_clocks_count zero_metrics)"
    and vid: "vid out =
        (if count > 275 then t 275
         else if f_gt (safe_get t count (vid_idx ?fm)) 0 then safe_get t count (vid_idx ?fm)
         else vid zero_metrics)"
    by blast
  have last: "\<exists>m. pm_table_read version (Some t) count codename_index = read_known_indices t count m"
    unfolding rd by (rule pm_table_generic_last_pass [OF zero_lengths])
  have t8: "take 8 (fill t 317 8 arr) = map t [317..324]" if "length arr = 16" for arr
    using take_fill [of 8 arr t 317] that by (simp add: upt_8)
  have v8: "take 8 (fill t 309 8 arr) = map t [309..316]" if "length arr = 16" for arr
    using take_fill [of 8 arr t 309] that by (simp add: upt_8)
  have c16: "fill t 325 16 (replicate 16 0) = map t [325..340]"
    using fill_all [of t 325 "replicate 16 0"] by (simp add: upt_16)
  have "pm_table_read version (Some t) count codename_index = Some out"
    by (simp only: rd out)
  moreover have "count > 324 \<longrightarrow> core_temps_count out = 8 \<and> take 8 (core_temps_c out) = map t [317..324]"
    by (simp add: temps_count temps t8)
  moreover have "count > 316 \<longrightarrow> core_voltages_count out = 8 \<and> take 8 (core_voltages out) = map t [309..316]"
    by (simp add: volts_count volts v8)
  moreover have "count > 275 \<longrightarrow> vid out = t 275"
    by (simp add: vid)
  moreover have "count > 340 \<longrightarrow> core_clocks_count out = 16 \<and> core_clocks_ghz out = map t [325..340]"
    by (simp add: clocks_count clocks c16)
  ultimately show ?thesis
    using last by blast
qed

section \<open>Stores stay within the per-core arrays\<close>

lemma capacity_ok_zero: "capacity_ok zero_metrics"
  by (simp add: capacity_ok_def MAX_CORES_def)

lemma clamp_cores_le: "clamp_cores fm \<le> 16"
  by (simp add: clamp_cores_def MAX_CORES_def)

lemma generic_capacity:
  "\<exists>out. pm_table_generic fm t count zero_metrics = Some out \<and> capacity_ok out
     \<and> core_temps_count out \<le> 16 \<and> core_voltages_count out \<le> 16
     \<and> core_clocks_count out \<le> 16 \<and> core_usage_count out = 0
     \<and> core_usage_pct out = replicate 16 0
     \<and> (\<forall>k<16. core_temps_c out ! k =
           (if count > 324 \<and> k < 8 then t (317 + int k)
            else if core_temp_start fm + clamp_cores fm \<le> count \<and> int k < clamp_cores fm
              then t (core_temp_start fm + int k)
            else 0))
     \<and> (\<forall>k<16. core_voltages out ! k =
           (if count > 316 \<and> k < 8 then t (309 + int k)
            else if core_voltage_start fm + clamp_cores fm \<le> count \<and> int k < clamp_cores fm
              then t (core_voltage_start fm + int k)
            else 0))
     \<and> (\<forall>k<16. core_clocks_ghz out ! k = (if count > 340 then t (325 + int k) else 0))"
proof -
  from pm_table_generic_post [OF zero_lengths, of fm t count "[]"]
  obtain out where out: "pm_table_generic fm t count zero_metrics = Some out"
    and temps: "core_temps_c out =
        (if count > 324
         then fill t 317 8 (if core_temp_start fm + clamp_cores fm \<le> count
                            then fill t (core_temp_start fm) (clamp_cores fm) (core_temps_c zero_metrics)
                            else core_temps_c zero_metrics)
         else if core_temp_start fm + clamp_cores fm \<le> count
              then fill t (core_temp_start fm) (clamp_cores fm) (core_temps_c zero_metrics)
              else core_temps_c zero_metrics)"
    and temps_count: "core_temps_count out =
        (if count > 324 then 8
         else if core_temp_start fm + clamp_cores fm \<le> count then clamp_cores fm
         else core_temps_count zero_metrics)"
    and volts: "core_voltages out =
        (if count > 316
         then fill t 309 8 (if core_voltage_start fm + clamp_cores fm \<le> count
                            then fill t (core_voltage_start fm) (clamp_cores fm) (core_voltages zero_metrics)
                            else core_voltages zero_metrics)
         else if core_voltage_start fm + clamp_cores fm \<le> count
              then fill t (core_voltage_start fm) (clamp_cores fm) (core_voltages zero_metrics)
              else core_voltages zero_metrics)"
    and volts_count: "core_voltages_count out =
        (if count > 316 then 8
         else if core_voltage_start fm + clamp_cores fm \<le> count then clamp_cores fm
         else core_voltages_count zero_metrics)"
    and clocks: "core_clocks_ghz out =
        (if count > 340 then fill t 325 16 (core_clocks_ghz zero_metrics) else core_clocks_ghz zero_metrics)"
    and clocks_count: "core_clocks_count out = (if count > 340 then 16 else core_clocks_count zero_metrics)"
    and usage: "core_usage_pct out = core_usage_pct zero_metrics"
       "core_usage_count out = core_usage_count zero_metrics"
    by blast
  have cap: "capacity_ok out"
    by (simp add: capacity_ok_def MAX_CORES_def temps volts clocks usage)
  have counts: "core_temps_count out \<le> 16" "core_voltages_count out \<le> 16" "core_clocks_count out \<le> 16"
    using clamp_cores_le [of fm] by (simp_all add: temps_count volts_count clocks_count)
  have t: "\<forall>k<16. core_temps_c out ! k =
           (if count > 324 \<and> k < 8 then t (317 + int k)
            else if core_temp_start fm + clamp_cores fm \<le> count \<and> int k < clamp_cores fm
              then t (core_temp_start fm + int k)
            else 0)"
    by (simp add: temps nth_fill)
  have v: "\<forall>k<16. core_voltages out ! k =
           (if count > 316 \<and> k < 8 then t (309 + int k)
            else if core_voltage_start fm + clamp_cores fm \<le> count \<and> int k < clamp_cores fm
              then t (core_voltage_start fm + int k)
            else 0)"
    by (simp add: volts nth_fill)
  have c: "\<forall>k<16. core_clocks_ghz out ! k = (if count > 340 then t (325 + int k) else 0)"
    by (simp add: clocks nth_fill)
  from out cap counts usage t v c show ?thesis
    by simp
qed

lemma granite_capacity:
  "\<exists>out. pm_table_granite t count zero_metrics = Some out \<and> capacity_ok out
     \<and> core_temps_count out \<le> 16 \<and> core_voltages_count out \<le> 16
     \<and> core_clocks_count out \<le> 16 \<and> core_usage_count out = 0"
proof -
  from pm_table_granite_post [OF zero_lengths, of t count "[]"]
  obtain out where out: "pm_table_granite t count zero_metrics = Some out"
    and f: "core_temps_c out = (if count > 324 then fill t 317 8 (core_temps_c zero_metrics) else core_temps_c zero_metrics)"
      "core_temps_count out = (if count > 324 then 8 else core_temps_count zero_metrics)"
      "core_clocks_ghz out = (if count > 340 then fill t 325 16 (core_clocks_ghz zero_metrics) else core_clocks_ghz zero_metrics)"
      "core_clocks_count out = (if count > 340 then 16 else core_clocks_count zero_metrics)"
      "core_voltages out = (if count > 316 then fill t 309 8 (core_voltages zero_metrics) else core_voltages zero_metrics)"
      "core_voltages_count out = (if count > 316 then 8 else core_voltages_count zero_metrics)"
      "core_usage_pct out = core_usage_pct zero_metrics"
      "core_usage_count out = core_usage_count zero_metrics"
    by blast
  have "capacity_ok out"
    by (simp add: capacity_ok_def MAX_CORES_def f)
  with out f show ?thesis
    by simp
qed

text \<open>
  No store of \<^verbatim>\<open>pm_table_read\<close> leaves the per-core arrays: for every table, count, version
  and codename index a record is returned (no store fails), the arrays keep their capacity
  of 16 and every count is at most 16.  The same holds for the generic branch run with any
  family map, whatever its \<^verbatim>\<open>max_cores\<close>; no usage entry is stored.
\<close>

lemma per_core_stores_within_capacity:
  "(\<exists>out. pm_table_read version table count codename_index = Some out \<and> capacity_ok out
       \<and> core_temps_count out \<le> 16 \<and> core_voltages_count out \<le> 16
       \<and> core_clocks_count out \<le> 16 \<and> core_usage_count out = 0)
   \<and> (\<exists>out. pm_table_generic fm t count zero_metrics = Some out \<and> capacity_ok out
       \<and> core_temps_count out \<le> 16 \<and> core_voltages_count out \<le> 16
       \<and> core_clocks_count out \<le> 16 \<and> core_usage_count out = 0
       \<and> core_usage_pct out = replicate 16 0)"
proof
  show "\<exists>out. pm_table_read version table count codename_index = Some out \<and> capacity_ok out
       \<and> core_temps_count out \<le> 16 \<and> core_voltages_count out \<le> 16
       \<and> core_clocks_count out \<le> 16 \<and> core_usage_count out = 0"
  proof (cases table)
    case None
    then show ?thesis
      by (simp add: pm_table_read_def capacity_ok_zero)
  next
    case (Some t')
    show ?thesis
    proof (cases "count < 4")
      case True
      with Some show ?thesis
        by (simp add: pm_table_read_def capacity_ok_zero)
    next
      case False
      show ?thesis
      proof (cases "codename_index = 23")
        case True
        with Some False granite_capacity [of t' count] show ?thesis
          by (simp add: pm_table_read_def)
      next
        case f: False
        from generic_capacity [of "get_family_map version" t' count]
        obtain out where "pm_table_generic (get_family_map version) t' count zero_metrics = Some out"
          "capacity_ok out" "core_temps_count out \<le> 16" "core_voltages_count out \<le> 16"
          "core_clocks_count out \<le> 16" "core_usage_count out = 0"
          by blast
        with Some False f show ?thesis
          by (simp add: pm_table_read_def)
      qed
    qed
  qed
next
  from generic_capacity [of fm t count]
  show "\<exists>out. pm_table_generic fm t count zero_metrics = Some out \<and> capacity_ok out
       \<and> core_temps_count out \<le> 16 \<and> core_voltages_count out \<le> 16
       \<and> core_clocks_count out \<le> 16 \<and> core_usage_count out = 0
       \<and> core_usage_pct out = replicate 16 0"
    by blast
qed

section \<open>The IOD hotspot and the overall core clock\<close>

lemma hotspot_from_facts:
  assumes "hotspot_from vs out"
    and "has_iod_hotspot out = (\<exists>v\<in>set vs. f_within v f_1 f_150)"
  shows "(has_iod_hotspot out \<longrightarrow>
        \<not> is_nan (iod_hotspot_c out) \<and> 1 \<le> f_val (iod_hotspot_c out)
        \<and> f_val (iod_hotspot_c out) \<le> 150 \<and> iod_hotspot_c out \<in> set vs)
     \<and> (has_iod_hotspot out \<longleftrightarrow> (\<exists>v\<in>set vs. \<not> is_nan v \<and> 1 \<le> f_val v \<and> f_val v \<le> 150))
     \<and> (\<not> has_iod_hotspot out \<longrightarrow> iod_hotspot_c out = 0)"
  using assms unfolding hotspot_from_def f_within_1_150 by auto

text \<open>
  C5.  After every call of \<^verbatim>\<open>pm_table_read\<close>: if \<^verbatim>\<open>has_iod_hotspot\<close> is set, then
  \<^verbatim>\<open>iod_hotspot_c\<close> is a number in [1, 150] and is one of the candidate values read; the
  flag is set exactly when some candidate read lies in [1, 150]; and when the flag is not
  set the field is still 0.0, so a candidate outside the range sets neither.
\<close>

theorem iod_hotspot_presence:
  "\<exists>out. pm_table_read version table count codename_index = Some out
     \<and> (has_iod_hotspot out \<longrightarrow>
          \<not> is_nan (iod_hotspot_c out) \<and> 1 \<le> f_val (iod_hotspot_c out)
          \<and> f_val (iod_hotspot_c out) \<le> 150
          \<and> iod_hotspot_c out \<in> set (iod_hotspot_candidates version table count codename_index))
     \<and> (has_iod_hotspot out \<longleftrightarrow>
          (\<exists>v\<in>set (iod_hotspot_candidates version table count codename_index).
             \<not> is_nan v \<and> 1 \<le> f_val v \<and> f_val v \<le> 150))
     \<and> (\<not> has_iod_hotspot out \<longrightarrow> iod_hotspot_c out = 0)"
proof -
  let ?vs = "iod_hotspot_candidates version table count codename_index"
  have "\<exists>out. pm_table_read version table count codename_index = Some out
      \<and> hotspot_from ?vs out \<and> has_iod_hotspot out = (\<exists>v\<in>set ?vs. f_within v f_1 f_150)"
  proof (cases table)
    case None
    then show ?thesis
      by (simp add: pm_table_read_def iod_hotspot_candidates_def hotspot_from_zero)
  next
    case (Some t)
    show ?thesis
    proof (cases "count < 4")
      case True
      with Some show ?thesis
        by (simp add: pm_table_read_def iod_hotspot_candidates_def hotspot_from_zero)
    next
      case False
      show ?thesis
      proof (cases "codename_index = 23")
        case True
        from pm_table_granite_post [OF zero_lengths, of t count "[]"]
        obtain out where "pm_table_granite t count zero_metrics = Some out"
          "has_iod_hotspot out = (has_iod_hotspot zero_metrics \<or> (count > 11 \<and> f_within (t 11) f_1 f_150))"
          "hotspot_from [] zero_metrics \<longrightarrow> hotspot_from ([] @ (if count > 11 then [t 11] else [])) out"
          by blast
        with Some False True hotspot_from_zero show ?thesis
          by (auto simp: pm_table_read_def iod_hotspot_candidates_def)
      next
        case f: False
        let ?fm = "get_family_map version"
        from pm_table_generic_post [OF zero_lengths, of ?fm t count "[]"]
        obtain out where "pm_table_generic ?fm t count zero_metrics = Some out"
          "has_iod_hotspot out =
            (has_iod_hotspot zero_metrics \<or> (\<exists>v\<in>set (named_hotspot_values ?fm t count). f_within v f_1 f_150)
             \<or> (count > 11 \<and> f_within (t 11) f_1 f_150))"
          "hotspot_from [] zero_metrics \<longrightarrow>
             hotspot_from ([] @ named_hotspot_values ?fm t count @ (if count > 11 then [t 11] else [])) out"
          by blast
        with Some False f hotspot_from_zero show ?thesis
          by (auto simp: pm_table_read_def iod_hotspot_candidates_def)
      qed
    qed
  qed
  then obtain out where "pm_table_read version table count codename_index = Some out"
    "hotspot_from ?vs out" "has_iod_hotspot out = (\<exists>v\<in>set ?vs. f_within v f_1 f_150)"
    by blast
  with hotspot_from_facts [of ?vs out] show ?thesis
    by blast
qed

text \<open>
  The branch for codename index 23 derives the overall core clock: when the per-core clock
  array is available (\<open>count > 340\<close>, which sets the clock count to 16), the loop
  \<open>max_core_clock\<close> yields the maximum of the entries (it is not a NaN, it is at least
  every entry that is not a NaN, and it is one of the entries, or 0.0 when no entry is
  positive), and \<^verbatim>\<open>core_clock_mhz\<close> is that maximum times 1000.0 if it lies in
  [0.5, 6.5], and 0.0 otherwise; when the array is not available the field is 0.0.
\<close>

lemma core_clock_from_per_core_max:
  "\<exists>out. pm_table_read version (Some t) count 23 = Some out
     \<and> (count \<le> 340 \<longrightarrow> core_clocks_count out = 0 \<and> core_clock_mhz out = 0)
     \<and> (count > 340 \<longrightarrow>
          core_clocks_count out = 16 \<and> core_clocks_ghz out = map t [325..340]
          \<and> \<not> is_nan (max_core_clock out)
          \<and> (max_core_clock out \<in> set (core_clocks_ghz out) \<or> max_core_clock out = 0)
          \<and> (\<forall>c\<in>set (core_clocks_ghz out). \<not> is_nan c \<longrightarrow> f_val c \<le> f_val (max_core_clock out))
          \<and> core_clock_mhz out =
              (if 1 / 2 \<le> f_val (max_core_clock out) \<and> f_val (max_core_clock out) \<le> 13 / 2
               then f_mul (max_core_clock out) f_1000 else 0))"
proof (cases "count < 4")
  case True
  then show ?thesis
    by (simp add: pm_table_read_def)
next
  case False
  from pm_table_granite_post [OF zero_lengths, of t count "[]"]
  obtain out where out: "pm_table_granite t count zero_metrics = Some out"
    and clocks: "core_clocks_ghz out =
        (if count > 340 then fill t 325 16 (core_clocks_ghz zero_metrics) else core_clocks_ghz zero_metrics)"
    and clocks_count: "core_clocks_count out = (if count > 340 then 16 else core_clocks_count zero_metrics)"
    and mhz: "core_clock_mhz out =
        (if core_clocks_count out > 0 \<and> f_within (max_core_clock out) f_0_5 f_6_5
         then f_mul (max_core_clock out) f_1000 else core_clock_mhz zero_metrics)"
    by blast
  have rd: "pm_table_read version (Some t) count 23 = Some out"
    using False out by (simp add: pm_table_read_def)
  have c16: "fill t 325 16 (replicate 16 0) = map t [325..340]"
    using fill_all [of t 325 "replicate 16 0"] by (simp add: upt_16)
  have small: "count \<le> 340 \<longrightarrow> core_clocks_count out = 0 \<and> core_clock_mhz out = 0"
    by (simp add: clocks_count mhz)
  have big: "core_clocks_count out = 16 \<and> core_clocks_ghz out = map t [325..340]
          \<and> \<not> is_nan (max_core_clock out)
          \<and> (max_core_clock out \<in> set (core_clocks_ghz out) \<or> max_core_clock out = 0)
          \<and> (\<forall>c\<in>set (core_clocks_ghz out). \<not> is_nan c \<longrightarrow> f_val c \<le> f_val (max_core_clock out))
          \<and> core_clock_mhz out =
              (if 1 / 2 \<le> f_val (max_core_clock out) \<and> f_val (max_core_clock out) \<le> 13 / 2
               then f_mul (max_core_clock out) f_1000 else 0)" if "count > 340"
  proof -
    have cnt: "core_clocks_count out = 16" and arr: "core_clocks_ghz out = map t [325..340]"
      using that by (simp_all add: clocks_count clocks c16)
    have len: "length (core_clocks_ghz out) = 16"
      using that by (simp add: clocks)
    have tk: "take (nat (core_clocks_count out)) (core_clocks_ghz out) = core_clocks_ghz out"
      by (simp add: cnt len)
    from max_core_clock_is_max [of out]
    have mx: "\<not> is_nan (max_core_clock out)"
      "max_core_clock out = 0 \<or> max_core_clock out \<in> set (core_clocks_ghz out)"
      "\<forall>c\<in>set (core_clocks_ghz out). \<not> is_nan c \<longrightarrow> f_val c \<le> f_val (max_core_clock out)"
      unfolding tk by blast+
    have "core_clock_mhz out =
              (if 1 / 2 \<le> f_val (max_core_clock out) \<and> f_val (max_core_clock out) \<le> 13 / 2
               then f_mul (max_core_clock out) f_1000 else 0)"
      unfolding mhz f_within_0_5_6_5 using mx(1) by (simp add: cnt)
    with cnt arr mx show ?thesis
      by blast
  qed
  from rd small big show ?thesis
    by blast
qed

section \<open>The decoder reads the table below count only\<close>

lemma safe_get_same: "same_below count t t' \<Longrightarrow> safe_get t count i = safe_get t' count i"
  by (simp add: safe_get_def same_below_def)

lemma same_belowD: "same_below count t t' \<Longrightarrow> 0 \<le> i \<Longrightarrow> i < count \<Longrightarrow> t i = t' i"
  by (simp add: same_below_def)

lemma first_plausible_same:
  "same_below count t t' \<Longrightarrow> first_plausible lo hi t count cs = first_plausible lo hi t' count cs"
  by (induction cs) (simp_all add: Let_def safe_get_same [of count t t'])

lemma apply_named_same:
  assumes "same_below count t t'"
  shows "apply_named fm t count m = apply_named fm t' count m"
proof -
  have "apply_named_entry t count = apply_named_entry t' count"
    by (intro ext) (simp add: apply_named_entry_def safe_get_same [OF assms])
  then show ?thesis
    by (simp add: apply_named_def)
qed

lemma copy_cores_same:
  "(\<And>k. i \<le> k \<Longrightarrow> k < n \<Longrightarrow> t (start + k) = t' (start + k)) \<Longrightarrow>
   copy_cores t start n i arr = copy_cores t' start n i arr"
proof (induction t start n i arr rule: copy_cores.induct)
  case (1 t start n i arr)
  show ?case
  proof (cases "i < n")
    case False
    then show ?thesis
      by (simp add: copy_cores.simps [of _ start n i arr])
  next
    case True
    then have eq: "t (start + i) = t' (start + i)"
      by (intro "1.prems") simp_all
    show ?thesis
    proof (cases "store arr i (t (start + i))")
      case None
      with True eq show ?thesis
        by (simp add: copy_cores.simps [of _ start n i arr])
    next
      case (Some arr')
      have "copy_cores t start n (i + 1) arr' = copy_cores t' start n (i + 1) arr'"
        using True Some by (intro "1.IH" "1.prems") simp_all
      with True eq Some show ?thesis
        by (simp add: copy_cores.simps [of _ start n i arr])
    qed
  qed
qed

lemma copy_cores_same_below:
  assumes "same_below count t t'" "0 \<le> start" "start + n \<le> count"
  shows "copy_cores t start n 0 arr = copy_cores t' start n 0 arr"
  using assms by (intro copy_cores_same same_belowD [of count]) simp_all

lemma read_known_indices_same:
  assumes "same_below count t t'"
  shows "read_known_indices t count m = read_known_indices t' count m"
proof -
  note s = assms
  have ppt: "known_ppt t count = known_ppt t' count"
    by (intro ext) (simp only: known_ppt_def first_plausible_same [OF s])
  have temps: "known_core_temps t count = known_core_temps t' count"
    by (intro ext) (simp add: known_core_temps_def copy_cores_same_below [OF s])
  have tdie: "known_tdie t count = known_tdie t' count"
    by (intro ext) (simp add: known_tdie_def same_belowD [OF s])
  have clocks: "known_core_clocks t count = known_core_clocks t' count"
    by (intro ext) (simp add: known_core_clocks_def copy_cores_same_below [OF s])
  have vid: "known_vid t count = known_vid t' count"
    by (intro ext) (simp add: known_vid_def same_belowD [OF s])
  have volts: "known_core_voltages t count = known_core_voltages t' count"
    by (intro ext) (simp add: known_core_voltages_def copy_cores_same_below [OF s])
  have hot: "known_iod_hotspot t count = known_iod_hotspot t' count"
    by (intro ext) (simp add: known_iod_hotspot_def same_belowD [OF s])
  show ?thesis
    by (simp only: read_known_indices_def ppt temps tdie clocks vid volts hot)
qed

lemma try_plausible_same:
  assumes "same_below count t t'"
  shows "try_plausible_power t count = try_plausible_power t' count"
    "try_plausible_current t count = try_plausible_current t' count"
    "try_plausible_temp t count = try_plausible_temp t' count"
  by (simp_all only: try_plausible_power_def try_plausible_current_def try_plausible_temp_def
      first_plausible_same [OF assms])

lemma pm_table_granite_same:
  assumes "same_below count t t'"
  shows "pm_table_granite t count m = pm_table_granite t' count m"
proof -
  have "read_granite_ridge_offsets t count m = read_granite_ridge_offsets t' count m"
    by (simp add: read_granite_ridge_offsets_def safe_get_same [OF assms])
  moreover have "derive_cpu_temp t count = derive_cpu_temp t' count"
    by (intro ext) (simp only: derive_cpu_temp_def try_plausible_same [OF assms])
  ultimately show ?thesis
    by (simp only: pm_table_granite_def read_known_indices_same [OF assms]
        try_plausible_same [OF assms])
qed

lemma pm_table_generic_same:
  assumes "same_below count t t'" "0 \<le> core_temp_start fm" "0 \<le> core_voltage_start fm"
  shows "pm_table_generic fm t count m = pm_table_generic fm t' count m"
proof -
  have temps: "family_core_temps fm nc t count = family_core_temps fm nc t' count" for nc
    using assms(2) by (intro ext) (simp add: family_core_temps_def copy_cores_same_below [OF assms(1)])
  have volts: "family_core_voltages fm nc t count = family_core_voltages fm nc t' count" for nc
    using assms(3) by (intro ext) (simp add: family_core_voltages_def copy_cores_same_below [OF assms(1)])
  have scal: "family_scalars fm t count = family_scalars fm t' count"
    by (intro ext) (simp only: family_scalars_def safe_get_same [OF assms(1)]
        try_plausible_same [OF assms(1)])
  have rki: "read_known_indices t count = read_known_indices t' count"
    by (intro ext) (rule read_known_indices_same [OF assms(1)])
  show ?thesis
    by (simp only: pm_table_generic_def temps volts scal rki apply_named_same [OF assms(1)])
qed

lemma family_map_starts:
  "0 \<le> core_temp_start (get_family_map version)" "0 \<le> core_voltage_start (get_family_map version)"
  by (simp_all add: get_family_map_def VERMEER_380804_def VERMEER_380805_def VERMEER_380904_def
      VERMEER_380905_def CEZANNE_400005_def MATISSE_240903_def MATISSE_240803_def
      RENOIR_370003_def RENOIR_370005_def RAVEN_1E0004_def GRANITE_RIDGE_def)

text \<open>
  The decoder reads the table only at indices from 0 up to \<open>count - 1\<close>: two tables that
  agree there give the same record.  So modelling the pointer by a total function loses
  nothing when \<open>count\<close> is the number of floats behind the pointer.
\<close>

lemma pm_table_read_reads_below_count:
  "same_below count t t' \<Longrightarrow>
   pm_table_read version (Some t) count codename_index
     = pm_table_read version (Some t') count codename_index"
  by (simp add: pm_table_read_def pm_table_granite_same pm_table_generic_same family_map_starts)

section \<open>The DRAM timing decoder\<close>

text \<open>
  C6, as the code has it.  \<^verbatim>\<open>to_nanoseconds cycles freq_mhz\<close> returns 0 when the frequency is
  a number and is not positive.  Otherwise it returns \<^verbatim>\<open>cycles * 2000 / freq_mhz\<close>, computed
  in single precision, and halved if and only if that value exceeds the cycle count
  converted to float.  For every cycle count this test holds exactly when the value
  exceeds the cycle count itself and is not the converted cycle count.  For a cycle count
  below \<open>2^24\<close> the conversion is exact, so there the value is halved if and only if it
  exceeds the cycle count.  A NaN frequency takes the second case and gives a NaN.
\<close>

theorem to_nanoseconds_formula:
  "(\<not> is_nan freq_mhz \<and> f_val freq_mhz \<le> 0 \<longrightarrow> to_nanoseconds cycles freq_mhz = 0)
   \<and> (\<not> (\<not> is_nan freq_mhz \<and> f_val freq_mhz \<le> 0) \<longrightarrow>
        to_nanoseconds cycles freq_mhz =
          (let ns = f_div (f_mul (u32_to_float cycles) f_2000) freq_mhz in
           if f_gt ns (u32_to_float cycles) then f_div ns f_2 else ns))
   \<and> (\<forall>ns. f_gt ns (u32_to_float cycles) \<longleftrightarrow>
          \<not> is_nan ns \<and> of_nat (unat cycles) < f_val ns
          \<and> f_val ns \<noteq> f_val (u32_to_float cycles))
   \<and> (unat cycles < 2 ^ 24 \<longrightarrow>
        f_val (u32_to_float cycles) = of_nat (unat cycles)
        \<and> (\<forall>ns. f_gt ns (u32_to_float cycles) \<longleftrightarrow> \<not> is_nan ns \<and> of_nat (unat cycles) < f_val ns))
   \<and> (is_nan freq_mhz \<longrightarrow> is_nan (to_nanoseconds cycles freq_mhz))"
proof (intro conjI impI)
  assume "\<not> is_nan freq_mhz \<and> f_val freq_mhz \<le> 0"
  then show "to_nanoseconds cycles freq_mhz = 0"
    by (simp add: to_nanoseconds_def f_le_zero_iff)
next
  assume "\<not> (\<not> is_nan freq_mhz \<and> f_val freq_mhz \<le> 0)"
  then have "\<not> f_le freq_mhz 0"
    by (simp add: f_le_zero_iff)
  then show "to_nanoseconds cycles freq_mhz =
      (let ns = f_div (f_mul (u32_to_float cycles) f_2000) freq_mhz in
       if f_gt ns (u32_to_float cycles) then f_div ns f_2 else ns)"
    by (simp add: to_nanoseconds_def)
next
  show "\<forall>ns. f_gt ns (u32_to_float cycles) \<longleftrightarrow>
          \<not> is_nan ns \<and> of_nat (unat cycles) < f_val ns
          \<and> f_val ns \<noteq> f_val (u32_to_float cycles)"
    by (intro allI f_gt_u32_to_float)
next
  assume "unat cycles < 2 ^ 24"
  then show "f_val (u32_to_float cycles) = of_nat (unat cycles)"
    by (rule u32_to_float_exact)
next
  assume "unat cycles < 2 ^ 24"
  then show "\<forall>ns. f_gt ns (u32_to_float cycles) \<longleftrightarrow> \<not> is_nan ns \<and> of_nat (unat cycles) < f_val ns"
    by (auto simp: f_lt_def u32_to_float_exact)
next
  assume n: "is_nan freq_mhz"
  then have "\<not> f_le freq_mhz 0"
    by (simp add: f_le_def)
  moreover have "f_div (f_mul (u32_to_float cycles) f_2000) freq_mhz = f_qnan"
    using n by (rule f_div_nan)
  ultimately have "to_nanoseconds cycles freq_mhz = f_qnan"
    by (simp add: to_nanoseconds_def Let_def f_lt_nan is_nan_qnan)
  then show "is_nan (to_nanoseconds cycles freq_mhz)"
    by (simp add: is_nan_qnan)
qed

text \<open>
  C7.  \<^verbatim>\<open>dram_read_timings\<close> dispatches on the codename index: 23 takes the DDR5 path,
  each of 4, 9, 10, 12, 18, 19 takes the DDR4 path, and every other index gives the
  all-zero record.
\<close>

theorem dram_read_timings_dispatch:
  "(codename_index = 23 \<longrightarrow>
      dram_read_timings read_smn codename_index = read_ddr5_timings read_smn zero_timings)
   \<and> (codename_index \<in> {4, 9, 10, 12, 18, 19} \<longrightarrow>
      dram_read_timings read_smn codename_index = read_ddr4_timings read_smn zero_timings)
   \<and> (codename_index \<notin> {4, 9, 10, 12, 18, 19, 23} \<longrightarrow>
      dram_read_timings read_smn codename_index = zero_timings)"
  by (auto simp: dram_read_timings_def)

lemma read_common_timings_frame:
  "frequency_hint_mhz (read_common_timings read_smn offset d) = frequency_hint_mhz d"
  "cmd2t (read_common_timings read_smn offset d) = cmd2t d"
  "gdm_enabled (read_common_timings read_smn offset d) = gdm_enabled d"
  "power_down_enabled (read_common_timings read_smn offset d) = power_down_enabled d"
  "trefi_ns (read_common_timings read_smn offset d) = trefi_ns d"
  "trfc_ns (read_common_timings read_smn offset d) = trfc_ns d"
  "trfc2_ns (read_common_timings read_smn offset d) = trfc2_ns d"
  "trfcsb_ns (read_common_timings read_smn offset d) = trfcsb_ns d"
  by (simp_all add: read_common_timings_def Let_def)

lemma read_ddr4_timings_frame:
  "frequency_hint_mhz (read_ddr4_timings read_smn d) = 0"
  "cmd2t (read_ddr4_timings read_smn d) = (cmd2t d)[0 := 0]"
  "gdm_enabled (read_ddr4_timings read_smn d) = gdm_enabled d"
  "power_down_enabled (read_ddr4_timings read_smn d) = power_down_enabled d"
  "trefi_ns (read_ddr4_timings read_smn d) = trefi_ns d"
  "trfc_ns (read_ddr4_timings read_smn d) = trfc_ns d"
  "trfc2_ns (read_ddr4_timings read_smn d) = trfc2_ns d"
  "trfcsb_ns (read_ddr4_timings read_smn d) = trfcsb_ns d"
  by (simp_all add: read_ddr4_timings_def Let_def read_common_timings_frame)

lemma c_string_cleared: "c_string ((replicate 4 0)[0 := 0]) = []"
  by code_simp

text \<open>
  C10.  For every DDR4 codename index (4, 9, 10, 12, 18, 19) and every register content,
  the record \<^verbatim>\<open>dram_read_timings\<close> returns has \<^verbatim>\<open>frequency_hint_mhz\<close> 0, \<^verbatim>\<open>cmd2t\<close> the
  empty string, \<^verbatim>\<open>gdm_enabled\<close> and \<^verbatim>\<open>power_down_enabled\<close> false, and the four nanosecond
  fields 0.
\<close>

theorem ddr4_path_leaves_derived_fields_zero:
  assumes "codename_index \<in> {4, 9, 10, 12, 18, 19}"
  shows "frequency_hint_mhz (dram_read_timings read_smn codename_index) = 0
    \<and> c_string (cmd2t (dram_read_timings read_smn codename_index)) = []
    \<and> \<not> gdm_enabled (dram_read_timings read_smn codename_index)
    \<and> \<not> power_down_enabled (dram_read_timings read_smn codename_index)
    \<and> trefi_ns (dram_read_timings read_smn codename_index) = 0
    \<and> trfc_ns (dram_read_timings read_smn codename_index) = 0
    \<and> trfc2_ns (dram_read_timings read_smn codename_index) = 0
    \<and> trfcsb_ns (dram_read_timings read_smn codename_index) = 0"
proof -
  have "dram_read_timings read_smn codename_index = read_ddr4_timings read_smn zero_timings"
    using assms by (auto simp: dram_read_timings_def)
  then show ?thesis
    by (simp add: read_ddr4_timings_frame zero_timings_def c_string_cleared)
qed

section \<open>The AML locator\<close>

lemma find_no_match: "(\<And>x. x \<in> set xs \<Longrightarrow> \<not> P x) \<Longrightarrow> find P xs = None"
  by (simp add: find_None_iff)

lemma scan_aml_from:
  "scan_aml aml i = map_option (aod_address aml) (find (aod_match aml) [i..<length aml])"
proof (induction aml i rule: scan_aml.induct)
  case (1 aml i)
  show ?case
  proof (cases "i + length aode_pattern + 10 < length aml")
    case False
    then have "find (aod_match aml) [i..<length aml] = None"
      by (intro find_no_match) (auto simp: aod_match_def)
    with False show ?thesis
      by (subst scan_aml.simps) simp
  next
    case True
    then have upt: "[i..<length aml] = i # [i + 1..<length aml]"
      by (simp add: upt_conv_Cons)
    show ?thesis
    proof (cases "aod_match aml i")
      case m: True
      then have "scan_aml aml i = Some (aod_address aml i)"
        using True by (subst scan_aml.simps) (auto simp: aod_match_def aod_address_def Let_def)
      with m show ?thesis
        by (simp add: upt)
    next
      case m: False
      then have "scan_aml aml i = scan_aml aml (i + 1)"
        using True by (subst scan_aml.simps) (auto simp: aod_match_def Let_def)
      also have "\<dots> = map_option (aod_address aml) (find (aod_match aml) [i + 1..<length aml])"
      proof (cases "take (length aode_pattern) (drop i aml) = aode_pattern")
        case False
        with True show ?thesis
          by (intro "1.IH"(1))
      next
        case sig: True
        with True m have "aml ! (i + length aode_pattern) \<noteq> 0x0C" "aml ! (i + length aode_pattern) \<noteq> 0x0E"
          by (auto simp: aod_match_def)
        with True sig show ?thesis
          by (intro "1.IH"(2)) auto
      qed
      finally show ?thesis
        using m by (simp add: upt)
    qed
  qed
qed

lemma scan_aml_dword_at_start:
  assumes "6 \<le> length rest"
  shows "scan_aml (aode_pattern @ [0x0C, 0x00, 0x10, 0x00, 0x00] @ rest) 0 = Some 0x1000"
  using assms by (subst scan_aml.simps) (simp add: aode_pattern_def)

text \<open>
  C8, as the code has it.  The scan of an AML buffer returns the address decoded at the
  first position \<open>i\<close> with \<open>i + 17 < length\<close> at which the 7-byte signature matches and the
  byte after it is \<^verbatim>\<open>0x0C\<close> (address: the next 4 bytes, little-endian) or \<^verbatim>\<open>0x0E\<close> (the next
  8 bytes, little-endian); a position where the signature is followed by any other byte
  is passed over, and without such a position nothing is found.  In particular the
  signature followed by \<^verbatim>\<open>0x0C\<close>, the bytes 00 10 00 00 and at least 6 more bytes gives the
  address \<^verbatim>\<open>0x1000\<close>, and the region mapped is that address with \<^verbatim>\<open>AOD_REGION_SIZE\<close>.
\<close>

theorem aod_locator_first_match:
  "scan_aml aml 0 = map_option (aod_address aml) (find (aod_match aml) [0..<length aml])
   \<and> (6 \<le> length rest \<longrightarrow>
        scan_aml (aode_pattern @ [0x0C, 0x00, 0x10, 0x00, 0x00] @ rest) 0 = Some 0x1000
        \<and> aod_region [aod_table (aode_pattern @ [0x0C, 0x00, 0x10, 0x00, 0x00] @ rest)]
            = Some (0x1000, AOD_REGION_SIZE))"
proof (intro conjI impI)
  show "scan_aml aml 0 = map_option (aod_address aml) (find (aod_match aml) [0..<length aml])"
    by (rule scan_aml_from)
next
  assume r: "6 \<le> length rest"
  then show s: "scan_aml (aode_pattern @ [0x0C, 0x00, 0x10, 0x00, 0x00] @ rest) 0 = Some 0x1000"
    by (rule scan_aml_dword_at_start)
  show "aod_region [aod_table (aode_pattern @ [0x0C, 0x00, 0x10, 0x00, 0x00] @ rest)]
            = Some (0x1000, AOD_REGION_SIZE)"
    using s by (simp add: aod_region_def aod_table_def)
qed

chapter \<open>The decoders on concrete inputs\<close>

text \<open>
  A table of length 3 gives the zero record for the Vermeer version with codename index 23
  and with codename index 12; so does a null table.
\<close>

theorem pm_table_read_short_table_witness:
  "pm_table_read 0x380804 (Some (tab_const f_1)) 3 23 = Some zero_metrics
   \<and> pm_table_read 0x380804 (Some (tab_const f_1)) 3 12 = Some zero_metrics
   \<and> pm_table_read 0 None 500 23 = Some zero_metrics"
  using pm_table_read_short_table [of "Some (tab_const f_1)" 3 "0x380804" 23]
    pm_table_read_short_table [of "Some (tab_const f_1)" 3 "0x380804" 12]
    pm_table_read_short_table [of None 500 0 23]
  by simp

text \<open>
  The generic branch with a family map that declares 20 cores, on a table of 250
  elements that are all 1.0: sixteen temperatures and sixteen voltages are stored.
\<close>

lemma generic_20_cores_run:
  "map_option core_temps_count (pm_table_generic FAMILY_20_CORES (tab_const f_1) 250 zero_metrics) = Some 16"
  "map_option core_temps_c (pm_table_generic FAMILY_20_CORES (tab_const f_1) 250 zero_metrics)
     = Some (replicate 16 f_1)"
  "map_option core_voltages (pm_table_generic FAMILY_20_CORES (tab_const f_1) 250 zero_metrics)
     = Some (replicate 16 f_1)"
  by code_simp+

text \<open>
  C3.  The claim bounds the number of per-core entries written by \<open>min max_cores 16\<close>.  The
  Raven Ridge map (version \<^verbatim>\<open>0x1E0004\<close>, codename index 7) has \<^verbatim>\<open>max_cores = 4\<close>, and on a table
  of 325 elements with 50.0 at 317..324 the family pass stores 4 temperatures and sets the
  count to 4, as the claim says.  The call of \<^verbatim>\<open>read_known_indices\<close> that ends the generic
  branch then stores 8 temperatures and sets the count to 8.
\<close>

theorem raven_temps_exceed_family_cores:
  "max_cores (get_family_map 0x1E0004) = 4
   \<and> min (max_cores (get_family_map 0x1E0004)) (int MAX_CORES) = 4
   \<and> map_option core_temps_count
        (family_core_temps (get_family_map 0x1E0004) 4 (tab_range 317 324 f_50) 325
           (apply_named (get_family_map 0x1E0004) (tab_range 317 324 f_50) 325 zero_metrics))
       = Some 4
   \<and> map_option core_temps_count (pm_table_read 0x1E0004 (Some (tab_range 317 324 f_50)) 325 7)
       = Some 8
   \<and> map_option core_temps_c (pm_table_read 0x1E0004 (Some (tab_range 317 324 f_50)) 325 7)
       = Some (replicate 8 f_50 @ replicate 8 0)"
  by code_simp

text \<open>
  Codename index 23 on a table of 341 elements with 4.0 at the clock indices 325..340.
\<close>

lemma granite_4ghz_run:
  "map_option core_clock_mhz (pm_table_read 0 (Some (tab_range 325 340 f_4)) 341 23) = Some f_4000"
  "map_option max_core_clock (pm_table_read 0 (Some (tab_range 325 340 f_4)) 341 23) = Some f_4"
  by code_simp+

text \<open>
  C4.  The claim has the overall core clock derived from the per-core maximum for every
  codename index.  With the Vermeer version \<^verbatim>\<open>0x380804\<close>, codename index 12 and a table of
  341 elements with 4.0 at 325..340, the per-core clock array is filled (count 16, every
  entry 4.0, maximum 4.0, which lies in [0.5, 6.5]), but \<^verbatim>\<open>core_clock_mhz\<close> stays 0.0: the
  generic branch has no derivation of the clock.  The same table with codename index 23
  gives 4000.0.
\<close>

theorem core_clock_absent_for_other_codenames:
  "map_option core_clocks_count (pm_table_read 0x380804 (Some (tab_range 325 340 f_4)) 341 12)
     = Some 16
   \<and> map_option core_clocks_ghz (pm_table_read 0x380804 (Some (tab_range 325 340 f_4)) 341 12)
       = Some (replicate 16 f_4)
   \<and> map_option max_core_clock (pm_table_read 0x380804 (Some (tab_range 325 340 f_4)) 341 12)
       = Some f_4
   \<and> f_within f_4 f_0_5 f_6_5
   \<and> f_mul f_4 f_1000 = f_4000
   \<and> map_option core_clock_mhz (pm_table_read 0x380804 (Some (tab_range 325 340 f_4)) 341 12)
       = Some 0
   \<and> f_4000 \<noteq> 0
   \<and> map_option core_clock_mhz (pm_table_read 0x380804 (Some (tab_range 325 340 f_4)) 341 23)
       = Some f_4000"
  by code_simp

text \<open>
  With 50.0 at index 11 the flag is set and the field is 50.0; with 200.0 there the flag
  stays unset and the field stays 0.0.
\<close>

theorem iod_hotspot_presence_witness:
  "(\<exists>out. pm_table_read 0 (Some (tab_range 11 11 f_50)) 12 23 = Some out
        \<and> has_iod_hotspot out \<and> iod_hotspot_c out = f_50)
   \<and> (\<exists>out. pm_table_read 0 (Some (tab_range 11 11 f_200)) 12 23 = Some out
        \<and> \<not> has_iod_hotspot out \<and> iod_hotspot_c out = 0)"
proof
  have c: "iod_hotspot_candidates 0 (Some (tab_range 11 11 f_50)) 12 23 = [f_50]"
    by (simp add: iod_hotspot_candidates_def tab_range_def)
  from iod_hotspot_presence [of 0 "Some (tab_range 11 11 f_50)" 12 23]
  show "\<exists>out. pm_table_read 0 (Some (tab_range 11 11 f_50)) 12 23 = Some out
        \<and> has_iod_hotspot out \<and> iod_hotspot_c out = f_50"
    unfolding c by (auto simp: f_50_value)
next
  have c: "iod_hotspot_candidates 0 (Some (tab_range 11 11 f_200)) 12 23 = [f_200]"
    by (simp add: iod_hotspot_candidates_def tab_range_def)
  from iod_hotspot_presence [of 0 "Some (tab_range 11 11 f_200)" 12 23]
  show "\<exists>out. pm_table_read 0 (Some (tab_range 11 11 f_200)) 12 23 = Some out
        \<and> \<not> has_iod_hotspot out \<and> iod_hotspot_c out = 0"
    unfolding c by (auto simp: f_200_value)
qed

text \<open>
  The float operations behind two conversions: 800 cycles at 3200 MHz and 100 cycles at
  100 MHz.
\<close>

lemma to_nanoseconds_runs:
  "f_div (f_mul (u32_to_float 800) f_2000) f_3200 = f_500"
  "\<not> f_gt f_500 (u32_to_float 800)"
  "f_div (f_mul (u32_to_float 100) f_2000) f_100 = f_2000"
  "f_gt f_2000 (u32_to_float 100)"
  "f_div f_2000 f_2 = f_1000"
  by code_simp+

text \<open>
  \<^verbatim>\<open>to_nanoseconds(800, 3200)\<close> is 500.0 and is not halved, since 500.0 does not exceed
  800; \<^verbatim>\<open>to_nanoseconds(100, 100)\<close> is 2000.0 halved to 1000.0; a zero frequency gives 0.
\<close>

theorem to_nanoseconds_formula_witness:
  "to_nanoseconds 800 f_3200 = f_500
   \<and> f_val (to_nanoseconds 800 f_3200) = 800 * 2000 / 3200
   \<and> \<not> of_nat (unat (800 :: u32)) < f_val (f_div (f_mul (u32_to_float 800) f_2000) f_3200)
   \<and> \<not> f_gt (f_div (f_mul (u32_to_float 800) f_2000) f_3200) (u32_to_float 800)
   \<and> to_nanoseconds 100 f_100 = f_1000
   \<and> to_nanoseconds 800 0 = 0
   \<and> is_nan (to_nanoseconds 800 f_qnan)"
proof -
  have "is_nan (to_nanoseconds 800 f_qnan)"
    using to_nanoseconds_formula [of f_qnan 800] is_nan_qnan by blast
  moreover have "to_nanoseconds 800 f_3200 = f_500"
    using to_nanoseconds_formula [of f_3200 800]
    by (simp add: to_nanoseconds_runs f_3200_value)
  moreover have "to_nanoseconds 100 f_100 = f_1000"
    using to_nanoseconds_formula [of f_100 100]
    by (simp add: to_nanoseconds_runs f_100_value)
  moreover have "to_nanoseconds 800 0 = 0"
    using to_nanoseconds_formula [of 0 800] by simp
  ultimately show ?thesis
    by (simp add: to_nanoseconds_runs f_500_value)
qed

text \<open>
  C6 as stated halves the value whenever it exceeds the raw cycle count, for every cycle
  count.  The cycle count 16777219 is converted to the float 16777220.0; at 2000 MHz the
  computed value is 16777220.0, which exceeds 16777219 but not the converted count, and
  \<^verbatim>\<open>to_nanoseconds(16777219, 2000)\<close> returns 16777220.0, not its half 8388610.0.
\<close>

theorem to_nanoseconds_rounded_count_not_halved:
  "\<not> is_nan f_2000 \<and> 0 < f_val f_2000
   \<and> f_val (f_div (f_mul (u32_to_float 16777219) f_2000) f_2000) = 16777220
   \<and> of_nat (unat (16777219 :: u32))
       < f_val (f_div (f_mul (u32_to_float 16777219) f_2000) f_2000)
   \<and> f_val (u32_to_float 16777219) = 16777220
   \<and> to_nanoseconds 16777219 f_2000 = f_div (f_mul (u32_to_float 16777219) f_2000) f_2000
   \<and> f_val (to_nanoseconds 16777219 f_2000) = 16777220
   \<and> f_val (f_div (f_div (f_mul (u32_to_float 16777219) f_2000) f_2000) f_2) = 8388610"
proof -
  have v: "f_val (f_div (f_mul (u32_to_float 16777219) f_2000) f_2000) = 16777220"
    by code_simp
  have "of_nat (unat (16777219 :: u32))
      < f_val (f_div (f_mul (u32_to_float 16777219) f_2000) f_2000)"
    unfolding v by simp
  moreover have "\<not> is_nan f_2000" "0 < f_val f_2000"
    "f_val (u32_to_float 16777219) = 16777220"
    "to_nanoseconds 16777219 f_2000 = f_div (f_mul (u32_to_float 16777219) f_2000) f_2000"
    "f_val (to_nanoseconds 16777219 f_2000) = 16777220"
    "f_val (f_div (f_div (f_mul (u32_to_float 16777219) f_2000) f_2000) f_2) = 8388610"
    by code_simp+
  ultimately show ?thesis
    using v by blast
qed

text \<open>
  The dispatch at the indices 23, 12, 5 and -1.
\<close>

theorem dram_read_timings_dispatch_witness:
  "dram_read_timings smn_zero 23 = read_ddr5_timings smn_zero zero_timings
   \<and> dram_read_timings smn_zero 12 = read_ddr4_timings smn_zero zero_timings
   \<and> dram_read_timings smn_ones 5 = zero_timings
   \<and> dram_read_timings smn_ones (- 1) = zero_timings"
  using dram_read_timings_dispatch [of 23 smn_zero] dram_read_timings_dispatch [of 12 smn_zero]
    dram_read_timings_dispatch [of 5 smn_ones] dram_read_timings_dispatch [of "- 1" smn_ones]
  by simp

text \<open>
  The two paths can be told apart: the DDR5 path leaves a command rate string, and the
  refresh fields are cut from different bit ranges.
\<close>

lemma dram_paths_differ:
  "c_string (cmd2t (dram_read_timings smn_zero 23)) = str_1T"
  "c_string (cmd2t (dram_read_timings smn_ones 23)) = str_2T"
  "tcl (dram_read_timings smn_ones 12) = 63"
  "rfc (dram_read_timings smn_ones 12) = 2047"
  "rfc (dram_read_timings smn_ones 23) = 65535"
  by code_simp+

text \<open>
  Codename index 12 with every register reading all ones.
\<close>

theorem ddr4_path_leaves_derived_fields_zero_witness:
  "(12::int) \<in> {4, 9, 10, 12, 18, 19}
   \<and> frequency_hint_mhz (dram_read_timings smn_ones 12) = 0
   \<and> c_string (cmd2t (dram_read_timings smn_ones 12)) = []
   \<and> \<not> gdm_enabled (dram_read_timings smn_ones 12)
   \<and> \<not> power_down_enabled (dram_read_timings smn_ones 12)
   \<and> trefi_ns (dram_read_timings smn_ones 12) = 0
   \<and> trfc_ns (dram_read_timings smn_ones 12) = 0
   \<and> trfc2_ns (dram_read_timings smn_ones 12) = 0
   \<and> trfcsb_ns (dram_read_timings smn_ones 12) = 0"
proof -
  have h: "(12::int) \<in> {4, 9, 10, 12, 18, 19}" by simp
  from h ddr4_path_leaves_derived_fields_zero [OF h, of smn_ones] show ?thesis
    by blast
qed

text \<open>
  The signature, \<^verbatim>\<open>0x0C\<close>, 00 10 00 00 and six zero bytes.
\<close>

theorem aod_locator_first_match_witness:
  "6 \<le> length (replicate 6 (0::u8))
   \<and> scan_aml (aode_pattern @ [0x0C, 0x00, 0x10, 0x00, 0x00] @ replicate 6 0) 0 = Some 0x1000
   \<and> aod_region [aod_table (aode_pattern @ [0x0C, 0x00, 0x10, 0x00, 0x00] @ replicate 6 0)]
       = Some (0x1000, AOD_REGION_SIZE)"
  using aod_locator_first_match [of "[]" "replicate 6 0"]
  by simp

text \<open>
  C8 as stated has the locator inspect every position where the signature matches.  In
  the 12-byte buffer that holds just the signature, \<^verbatim>\<open>0x0C\<close> and 00 10 00 00, the
  signature matches at position 0, but the loop condition \<open>0 + 7 + 10 < 12\<close> fails:
  nothing is inspected and no region is found.
\<close>

theorem aod_signature_at_end_not_found:
  "scan_aml (aode_pattern @ [0x0C, 0x00, 0x10, 0x00, 0x00]) 0 = None
   \<and> aod_region [aod_table (aode_pattern @ [0x0C, 0x00, 0x10, 0x00, 0x00])] = None"
  by code_simp

text \<open>
  A signature with an unknown tag is passed over and a later signature with tag \<^verbatim>\<open>0x0E\<close>
  is decoded from 8 bytes; of two accepted positions the first one wins.
\<close>

lemma aod_scan_runs:
  "scan_aml (aode_pattern @ [0x0A] @ aode_pattern @ [0x0E, 0x00, 0x00, 0x00, 0xF0, 0x01, 0x00, 0x00, 0x00]
      @ replicate 4 0) 0 = Some 0x1F0000000"
  "scan_aml (aode_pattern @ [0x0C, 0x00, 0x10, 0x00, 0x00] @ aode_pattern
      @ [0x0C, 0x00, 0x20, 0x00, 0x00] @ replicate 6 0) 0 = Some 0x1000"
  by code_simp+

text \<open>
  The 16-core Vermeer layout (codename index 12) on a table of 400 elements with 1.0 at
  the family's own temperature indices and 50.0 at 317..324: the first 8 temperatures are
  50.0 and the count is 8.
\<close>

theorem granite_ridge_pass_overrides_witness:
  "(12::int) \<noteq> 23
   \<and> (\<exists>out. pm_table_read 0x380804 (Some tab_vermeer_temps) 400 12 = Some out
        \<and> core_temps_count out = 8 \<and> take 8 (core_temps_c out) = replicate 8 f_50
        \<and> core_voltages_count out = 8 \<and> vid out = 0 \<and> core_clocks_count out = 16)"
proof -
  have h: "(12::int) \<noteq> 23" by simp
  from granite_ridge_pass_overrides [OF h, of "0x380804" tab_vermeer_temps 400]
  obtain out where "pm_table_read 0x380804 (Some tab_vermeer_temps) 400 12 = Some out"
    "core_temps_count out = 8" "take 8 (core_temps_c out) = map tab_vermeer_temps [317..324]"
    "core_voltages_count out = 8" "vid out = tab_vermeer_temps 275" "core_clocks_count out = 16"
    by auto
  moreover have "map tab_vermeer_temps [317..324] = replicate 8 f_50" "tab_vermeer_temps 275 = 0"
    by (simp_all add: tab_vermeer_temps_def replicate_8)
  ultimately show ?thesis
    using h by auto
qed

text \<open>
  The 16-core Vermeer layout on the table above.  With 400 elements the fixed-index pass
  replaces the first 8 temperatures and sets the count to 8, while entries 8..15 keep
  what the family pass stored; with 300 elements the family pass alone is seen.
\<close>

lemma vermeer_run:
  "map_option core_temps_c (pm_table_read 0x380804 (Some tab_vermeer_temps) 400 12)
     = Some (replicate 8 f_50 @ replicate 8 f_1)"
  "map_option core_temps_count (pm_table_read 0x380804 (Some tab_vermeer_temps) 400 12) = Some 8"
  "map_option core_temps_c (pm_table_read 0x380804 (Some tab_vermeer_temps) 300 12)
     = Some (replicate 16 f_1)"
  "map_option core_temps_count (pm_table_read 0x380804 (Some tab_vermeer_temps) 300 12) = Some 16"
  by code_simp+

end
